theory Spec2Isabelle
  imports Complex_Main "HOL-Library.Multiset"
begin

section \<open>Tabify-AI: playback synchronisation engine\<close>

text \<open>
  A shallow embedding of the transcription sanitizer (geminiService, the tail of
  \<^verbatim>\<open>generateGuitarTabFromAudio\<close>) and of the playback half of
  \<^verbatim>\<open>components/TabRenderer.tsx\<close> (\<^verbatim>\<open>flatMeasures\<close>,
  \<^verbatim>\<open>stopAllPlayback\<close>, \<^verbatim>\<open>updatePlaybackProgress\<close>,
  \<^verbatim>\<open>toggleOriginalPlayback\<close>, \<^verbatim>\<open>playSynth\<close>).

  Conventions. A JavaScript number is a \<^typ>\<open>real\<close> (finite and exact); where the code
  can meet \<^verbatim>\<open>NaN\<close> or \<^verbatim>\<open>undefined\<close> the value is an option and
  \<^term>\<open>None\<close> stands for it. A JavaScript string is a \<^typ>\<open>string\<close> of 8-bit
  characters. An object is the association list of its own properties, read with
  \<^const>\<open>map_of\<close>; where the code reads a table by a name from the data, the names every
  object inherits are added.
\<close>

subsection \<open>Data model (types.ts)\<close>

record TabNote =
  string :: real
  fret :: "char list"
  position :: real
  confidence :: "real option"

record TabMeasure =
  chords :: "char list list"
  notes' :: "TabNote list"

record TabSection =
  title :: "char list"
  measures :: "TabMeasure list"

record GuitarTabResult =
  songTitle :: "char list"
  artist :: "char list option"
  key :: "char list option"
  tempo :: "real option"
  tuning :: "char list option"
  sections :: "TabSection list"
  rawAscii :: "char list option"

text \<open>
  The renderer only ever receives the sanitizer's result (App.tsx passes the value returned
  by \<^verbatim>\<open>generateGuitarTabFromAudio\<close>), whose frets are strings, so
  \<^verbatim>\<open>note.fret.toString()\<close> is the fret itself.
\<close>

text \<open>\<^verbatim>\<open>TUNING_FREQS\<close>: open-string frequencies, string 6 to string 1.\<close>

definition TUNING_FREQS :: "(char list \<times> real list) list" where
  "TUNING_FREQS =
    [(''E Standard'', [82.41, 110.00, 146.83, 196.00, 246.94, 329.63]),
     (''Drop D'', [73.42, 110.00, 146.83, 196.00, 246.94, 329.63]),
     (''D Standard'', [73.42, 98.00, 130.81, 174.61, 220.00, 293.66]),
     (''Open G'', [73.42, 98.00, 146.83, 196.00, 246.94, 293.66]),
     (''DADGAD'', [73.42, 110.00, 146.83, 196.00, 220.00, 293.66])]"

subsection \<open>JavaScript primitives used by the renderer\<close>

text \<open>\<^verbatim>\<open>a % b\<close> on integer-valued numbers: the sign follows the dividend.\<close>

definition js_rem :: "int \<Rightarrow> int \<Rightarrow> int" where
  "js_rem a b = sgn a * (\<bar>a\<bar> mod \<bar>b\<bar>)"

text \<open>
  \<^verbatim>\<open>xs[r]\<close> for a number \<open>r\<close>: an element when \<open>r\<close> is an integer inside the
  array, \<^verbatim>\<open>undefined\<close> otherwise.
\<close>

definition js_index :: "'a list \<Rightarrow> real \<Rightarrow> 'a option" where
  "js_index xs r =
     (if r = of_int \<lfloor>r\<rfloor> \<and> 0 \<le> r \<and> nat \<lfloor>r\<rfloor> < length xs
      then Some (xs ! nat \<lfloor>r\<rfloor>) else None)"

text \<open>
  \<^verbatim>\<open>parseInt(s)\<close> with no radix argument (ECMAScript 19.2.5): leading white space
  is skipped, one sign is read, a prefix \<^verbatim>\<open>0x\<close> or \<^verbatim>\<open>0X\<close> switches to
  radix 16, and the longest run of digits of the radix is the result; an empty run is
  \<^verbatim>\<open>NaN\<close>. White space is given for the characters a \<^typ>\<open>char\<close> can hold.
\<close>

definition is_ws :: "char \<Rightarrow> bool" where
  "is_ws c = (c \<in> set [CHR 0x09, CHR 0x0A, CHR 0x0B, CHR 0x0C, CHR 0x0D, CHR 0x20, CHR 0xA0])"

definition digit_val :: "char \<Rightarrow> nat option" where
  "digit_val c =
     (let n = of_char c :: nat in
      if 48 \<le> n \<and> n \<le> 57 then Some (n - 48)
      else if 97 \<le> n \<and> n \<le> 122 then Some (n - 87)
      else if 65 \<le> n \<and> n \<le> 90 then Some (n - 55)
      else None)"

definition radix_digit :: "nat \<Rightarrow> char \<Rightarrow> bool" where
  "radix_digit R c = (case digit_val c of None \<Rightarrow> False | Some d \<Rightarrow> d < R)"

definition digits_value :: "nat \<Rightarrow> char list \<Rightarrow> nat" where
  "digits_value R ds = foldl (\<lambda>acc c. acc * R + the (digit_val c)) 0 ds"

text \<open>The text after the leading white space and the sign, if there is one.\<close>

definition unsigned_part :: "char list \<Rightarrow> char list" where
  "unsigned_part s =
     (let s1 = dropWhile is_ws s
      in if s1 \<noteq> [] \<and> (hd s1 = CHR ''+'' \<or> hd s1 = CHR ''-'') then tl s1 else s1)"

definition parseInt :: "char list \<Rightarrow> int option" where
  "parseInt s =
     (let s1 = dropWhile is_ws s;
          negative = (s1 \<noteq> [] \<and> hd s1 = CHR ''-'');
          s2 = unsigned_part s;
          hex = (take 2 s2 = ''0x'' \<or> take 2 s2 = ''0X'');
          R = (if hex then 16 else 10);
          s3 = (if hex then drop 2 s2 else s2);
          Z = takeWhile (radix_digit R) s3
      in if Z = [] then None
         else Some ((if negative then - 1 else 1) * int (digits_value R Z)))"

subsection \<open>Time grid\<close>

text \<open>\<^verbatim>\<open>data.tempo || 120\<close>: an absent tempo and the falsy number 0 give 120.\<close>

definition tempo_or_default :: "real option \<Rightarrow> real" where
  "tempo_or_default t = (case t of None \<Rightarrow> 120 | Some v \<Rightarrow> if v = 0 then 120 else v)"

definition secondsPerMeasure :: "real option \<Rightarrow> real" where
  "secondsPerMeasure t = (60 / tempo_or_default t) * 4"

definition secondsPerPosition :: "real option \<Rightarrow> real" where
  "secondsPerPosition t = secondsPerMeasure t / 16"

definition secondsPerBeat :: "real option \<Rightarrow> real" where
  "secondsPerBeat t = 60 / tempo_or_default t"

subsection \<open>Frequency of a fretted note\<close>

text \<open>
  \<^verbatim>\<open>TUNING_FREQS\<close> is an object literal, so \<^verbatim>\<open>TUNING_FREQS[name]\<close> is also
  defined for the names every object inherits from \<^verbatim>\<open>Object.prototype\<close>
  (ECMAScript 20.1.3 and B.2.2): there it is a function or an object, which is truthy.
\<close>

definition Object_prototype_names :: "char list list" where
  "Object_prototype_names =
     [''constructor'', ''hasOwnProperty'', ''isPrototypeOf'', ''propertyIsEnumerable'',
      ''toLocaleString'', ''toString'', ''valueOf'', ''__proto__'',
      ''__defineGetter__'', ''__defineSetter__'', ''__lookupGetter__'', ''__lookupSetter__'']"

text \<open>
  \<^verbatim>\<open>TUNING_FREQS[data.tuning || 'E Standard'] || TUNING_FREQS['E Standard']\<close>.
  An inherited member has no element at any index: as a table it is the empty list.
\<close>

definition tuningBaseFreqs :: "char list option \<Rightarrow> real list" where
  "tuningBaseFreqs t =
     (let name = (case t of None \<Rightarrow> ''E Standard'' | Some n \<Rightarrow> if n = [] then ''E Standard'' else n)
      in case map_of TUNING_FREQS name of
           Some fs \<Rightarrow> fs
         | None \<Rightarrow>
             if name \<in> set Object_prototype_names then []
             else the (map_of TUNING_FREQS ''E Standard''))"

text \<open>A tuning that is absent or whose name is not inherited.\<close>

definition own_or_plain :: "char list option \<Rightarrow> bool" where
  "own_or_plain tn = (case tn of None \<Rightarrow> True | Some x \<Rightarrow> x \<notin> set Object_prototype_names)"

text \<open>
  \<^verbatim>\<open>baseFreq * Math.pow(2, fretNum / 12)\<close> with
  \<^verbatim>\<open>baseFreq = tuningBaseFreqs[6 - note.string]\<close>; an index outside the table
  makes the product \<^verbatim>\<open>NaN\<close>.  What the audio API does with a frequency that is
  \<^verbatim>\<open>NaN\<close>, or with a negative time, is not part of this model: an oscillator is
  recorded with the values the code computes for it.
\<close>

definition note_frequency :: "real list \<Rightarrow> real \<Rightarrow> int \<Rightarrow> real option" where
  "note_frequency freqs stringNumber fretNum =
     (case js_index freqs (6 - stringNumber) of
        None \<Rightarrow> None
      | Some baseFreq \<Rightarrow> Some (baseFreq * 2 powr (real_of_int fretNum / 12)))"

subsection \<open>Scheduling (the body of playSynth)\<close>

datatype wave = Sine | Triangle

text \<open>
  One oscillator with its gain envelope, as the calls on it fix them: the wave form, the
  frequency set at the onset, the gain reached at the end of the linear attack, the end of
  the exponential decay, and the times given to \<^verbatim>\<open>start\<close> and \<^verbatim>\<open>stop\<close>.
\<close>

record oscillator =
  osc_type :: wave
  osc_frequency :: "real option"
  gain_peak :: real
  attack_until :: real
  decay_until :: real
  start_at :: real
  stop_at :: real

definition click :: "real \<Rightarrow> nat \<Rightarrow> oscillator" where
  "click clickTime beat =
     \<lparr>osc_type = Sine,
      osc_frequency = Some (if beat = 0 then 1200 else 800),
      gain_peak = 0.1,
      attack_until = clickTime + 0.005,
      decay_until = clickTime + 0.05,
      start_at = clickTime,
      stop_at = clickTime + 0.06\<rparr>"

definition metronome_clicks :: "real option \<Rightarrow> real \<Rightarrow> oscillator list" where
  "metronome_clicks t measureStartTime =
     map (\<lambda>beat. click (measureStartTime + real beat * secondsPerBeat t) beat) [0..<4]"

definition tone :: "real option \<Rightarrow> real \<Rightarrow> oscillator" where
  "tone frequency noteStartTime =
     \<lparr>osc_type = Triangle,
      osc_frequency = frequency,
      gain_peak = 0.15,
      attack_until = noteStartTime + 0.02,
      decay_until = noteStartTime + 0.4,
      start_at = noteStartTime,
      stop_at = noteStartTime + 0.5\<rparr>"

text \<open>The callback of \<^verbatim>\<open>sortedNotes.forEach\<close>: nothing for a fret that is not a number.\<close>

definition schedule_note ::
  "real option \<Rightarrow> real list \<Rightarrow> real \<Rightarrow> TabNote \<Rightarrow> oscillator list" where
  "schedule_note t freqs measureStartTime note =
     (case parseInt (fret note) of
        None \<Rightarrow> []
      | Some fretNum \<Rightarrow>
          [tone (note_frequency freqs (string note) fretNum)
                (measureStartTime + position note * secondsPerPosition t)])"

definition sortedNotes :: "TabMeasure \<Rightarrow> TabNote list" where
  "sortedNotes m = sort_key position (notes' m)"

definition schedule_measure ::
  "real option \<Rightarrow> real list \<Rightarrow> bool \<Rightarrow> real \<Rightarrow> TabMeasure \<Rightarrow> oscillator list" where
  "schedule_measure t freqs metronome measureStartTime m =
     (if metronome then metronome_clicks t measureStartTime else []) @
     concat (map (schedule_note t freqs measureStartTime) (sortedNotes m))"

text \<open>
  The two nested \<^verbatim>\<open>forEach\<close> loops: the oscillators pushed, in order, and the
  running \<^verbatim>\<open>measureStartTime\<close>.
\<close>

fun schedule_measures ::
  "real option \<Rightarrow> real list \<Rightarrow> bool \<Rightarrow> real \<Rightarrow> TabMeasure list \<Rightarrow> oscillator list \<times> real" where
  "schedule_measures t freqs metronome measureStartTime [] = ([], measureStartTime)"
| "schedule_measures t freqs metronome measureStartTime (m # ms) =
     (let (rest, end_time) =
            schedule_measures t freqs metronome (measureStartTime + secondsPerMeasure t) ms
      in (schedule_measure t freqs metronome measureStartTime m @ rest, end_time))"

fun schedule_sections ::
  "real option \<Rightarrow> real list \<Rightarrow> bool \<Rightarrow> real \<Rightarrow> TabSection list \<Rightarrow> oscillator list \<times> real" where
  "schedule_sections t freqs metronome measureStartTime [] = ([], measureStartTime)"
| "schedule_sections t freqs metronome measureStartTime (s # ss) =
     (let (here, next_time) = schedule_measures t freqs metronome measureStartTime (measures s);
          (rest, end_time) = schedule_sections t freqs metronome next_time ss
      in (here @ rest, end_time))"

subsection \<open>The flattened measure index\<close>

record FlatMeasure = TabMeasure +
  sectionIdx :: nat
  measureIdx :: nat
  absoluteIdx :: nat

text \<open>
  The callback of \<^verbatim>\<open>flatMap\<close>:
  \<^verbatim>\<open>section.measures.map((measure, mIdx) =>
  ({...measure, sectionIdx: sIdx, measureIdx: mIdx, absoluteIdx: 0}))\<close>
\<close>

definition flat_row :: "nat \<Rightarrow> TabSection \<Rightarrow> FlatMeasure list" where
  "flat_row sIdx section =
     map (\<lambda>(mIdx, m). \<lparr>chords = chords m, notes' = notes' m,
                        sectionIdx = sIdx, measureIdx = mIdx, absoluteIdx = 0\<rparr>)
         (enumerate 0 (measures section))"

text \<open>
  \<^verbatim>\<open>data.sections.flatMap((section, sIdx) => ...).map((m, i) => ({...m, absoluteIdx: i}))\<close>
\<close>

definition flatMeasures :: "GuitarTabResult \<Rightarrow> FlatMeasure list" where
  "flatMeasures data =
     map (\<lambda>(i, m). m\<lparr>absoluteIdx := i\<rparr>)
       (enumerate 0
         (concat (map (\<lambda>(sIdx, section). flat_row sIdx section) (enumerate 0 (sections data)))))"

text \<open>The rows of the sections from index \<open>k\<close> on, for the proofs by induction.\<close>

definition flat_rows :: "nat \<Rightarrow> TabSection list \<Rightarrow> FlatMeasure list" where
  "flat_rows k secs = concat (map (\<lambda>(sIdx, section). flat_row sIdx section) (enumerate k secs))"

subsection \<open>Controller state\<close>

text \<open>
  The \<^verbatim>\<open>HTMLAudioElement\<close> of the original recording, by what the component does
  with it: whether it is producing sound (\<^verbatim>\<open>play()\<close>, \<^verbatim>\<open>pause()\<close>) and its
  \<^verbatim>\<open>currentTime\<close>.
\<close>

record audio_element =
  playing :: bool
  currentTime :: real

text \<open>
  A callback waiting in the browser's animation frame queue.  The callback is the
  \<^verbatim>\<open>updatePlaybackProgress\<close> of one render of the component, so it carries the value
  the constant \<^verbatim>\<open>isPlayingSynth\<close> had in that render.
\<close>

record frame_request =
  frame_id :: nat
  seen_isPlayingSynth :: bool

text \<open>
  The component's state hooks and refs, followed by the platform objects they refer to:
  the oscillators started on the audio graph and not stopped by a call of
  \<^verbatim>\<open>stop()\<close>, the timers not cleared, the animation frame queue with its counter, and
  the console.  \<^verbatim>\<open>synthContextRef\<close> holds the \<^verbatim>\<open>AudioContext\<close>, given by its
  \<^verbatim>\<open>currentTime\<close>.
\<close>

record playback =
  isPlayingOriginal :: bool
  isPlayingSynth :: bool
  metronomeEnabled :: bool
  activeMeasureIdx :: "nat option"
  activePosIdx :: "int option"
  activeSectionIdx :: "nat option"
  audioRef :: "audio_element option"
  synthContextRef :: "real option"
  synthOscillators :: "oscillator list"
  synthTimeoutRefs :: "nat list"
  animationFrameRef :: "nat option"
  synthStartTimeRef :: real
  destination :: "oscillator list"
  pendingTimeouts :: "nat list"
  frameRequests :: "frame_request list"
  frameCounter :: nat
  console :: "char list list"

datatype js_error = TypeError

text \<open>\<^verbatim>\<open>osc.stop()\<close> on every handle of the list: each leaves the audio graph.\<close>

definition stop_oscillators :: "oscillator list \<Rightarrow> oscillator list \<Rightarrow> oscillator list" where
  "stop_oscillators handles graph = foldr remove1 handles graph"

text \<open>
  \<^verbatim>\<open>if (animationFrameRef.current) cancelAnimationFrame(animationFrameRef.current)\<close>:
  a handle that is \<^verbatim>\<open>null\<close> or 0 is falsy.
\<close>

definition cancel_frame :: "nat option \<Rightarrow> frame_request list \<Rightarrow> frame_request list" where
  "cancel_frame h queue =
     (case h of
        None \<Rightarrow> queue
      | Some i \<Rightarrow> if i = 0 then queue else filter (\<lambda>f. frame_id f \<noteq> i) queue)"

text \<open>
  \<^verbatim>\<open>animationFrameRef.current = requestAnimationFrame(updatePlaybackProgress)\<close>, for
  the callback of a render in which \<^verbatim>\<open>isPlayingSynth\<close> had the value \<open>seen\<close>.  The
  browser's handle is its counter, incremented.
\<close>

definition requestAnimationFrame :: "bool \<Rightarrow> playback \<Rightarrow> playback" where
  "requestAnimationFrame seen s =
     s\<lparr>animationFrameRef := Some (frameCounter s + 1),
       frameRequests :=
         frameRequests s @ [\<lparr>frame_id = frameCounter s + 1, seen_isPlayingSynth = seen\<rparr>],
       frameCounter := frameCounter s + 1\<rparr>"

definition stopAllPlayback :: "playback \<Rightarrow> playback" where
  "stopAllPlayback s =
     s\<lparr>audioRef := map_option (\<lambda>a. a\<lparr>playing := False, currentTime := 0\<rparr>) (audioRef s),
       isPlayingOriginal := False,
       destination := stop_oscillators (synthOscillators s) (destination s),
       synthOscillators := [],
       pendingTimeouts := filter (\<lambda>t. t \<notin> set (synthTimeoutRefs s)) (pendingTimeouts s),
       synthTimeoutRefs := [],
       frameRequests := cancel_frame (animationFrameRef s) (frameRequests s),
       isPlayingSynth := False,
       activeMeasureIdx := None,
       activePosIdx := None,
       activeSectionIdx := None\<rparr>"

text \<open>
  One run of the frame callback.  \<open>seen\<close> is the callback's own \<^verbatim>\<open>isPlayingSynth\<close>;
  the refs are read from the state.  \<^verbatim>\<open>flatMeasures[absMeasureIdx]\<close> is
  \<^verbatim>\<open>undefined\<close> for a negative index, and reading \<^verbatim>\<open>sectionIdx\<close> from it throws.
\<close>

definition updatePlaybackProgress ::
  "GuitarTabResult \<Rightarrow> bool \<Rightarrow> playback \<Rightarrow> js_error + playback" where
  "updatePlaybackProgress data seen s =
     (case synthContextRef s of
        None \<Rightarrow> Inr s
      | Some now \<Rightarrow>
          if \<not> seen then Inr s
          else
            let elapsed = now - synthStartTimeRef s in
            if elapsed < 0 then Inr (requestAnimationFrame seen s)
            else
              let totalPositions = \<lfloor>elapsed / secondsPerPosition (tempo data)\<rfloor>;
                  absMeasureIdx = \<lfloor>real_of_int totalPositions / 16\<rfloor>;
                  posInMeasure = js_rem totalPositions 16
              in if absMeasureIdx < int (length (flatMeasures data)) then
                   (if absMeasureIdx < 0 then Inl TypeError
                    else
                      let currentFlat = flatMeasures data ! nat absMeasureIdx
                      in Inr (requestAnimationFrame seen
                               (s\<lparr>activeSectionIdx := Some (sectionIdx currentFlat),
                                  activeMeasureIdx := Some (measureIdx currentFlat),
                                  activePosIdx := Some posInMeasure\<rparr>)))
                 else Inr (stopAllPlayback s))"

text \<open>
  The click handlers read \<^verbatim>\<open>isPlayingSynth\<close> and \<^verbatim>\<open>isPlayingOriginal\<close> as
  constants of the current render, so the tests below are on the state at entry, also
  after a call of \<^verbatim>\<open>stopAllPlayback\<close>.
\<close>

definition toggleOriginalPlayback :: "playback \<Rightarrow> playback" where
  "toggleOriginalPlayback s =
     (let s1 = (if isPlayingSynth s then stopAllPlayback s else s) in
      case audioRef s1 of
        None \<Rightarrow> s1\<lparr>console := console s1 @ [''Original audio source is missing or invalid.'']\<rparr>
      | Some a \<Rightarrow>
          if isPlayingOriginal s
          then s1\<lparr>audioRef := Some (a\<lparr>playing := False\<rparr>), isPlayingOriginal := False\<rparr>
          else s1\<lparr>audioRef := Some (a\<lparr>playing := True\<rparr>), isPlayingOriginal := True\<rparr>)"

text \<open>
  \<open>ctxTime\<close> is the \<^verbatim>\<open>currentTime\<close> of the \<^verbatim>\<open>AudioContext\<close> the handler
  creates.  The frame callback it registers is the one of its own render.
\<close>

definition playSynth :: "GuitarTabResult \<Rightarrow> real \<Rightarrow> playback \<Rightarrow> playback" where
  "playSynth data ctxTime s =
     (let s1 = (if isPlayingOriginal s then stopAllPlayback s else s) in
      if isPlayingSynth s then stopAllPlayback s1
      else
        let startTime = ctxTime + 0.2;
            scheduled = fst (schedule_sections (tempo data) (tuningBaseFreqs (tuning data))
                               (metronomeEnabled s) startTime (sections data))
        in requestAnimationFrame (isPlayingSynth s)
             (s1\<lparr>synthContextRef := Some ctxTime,
                 isPlayingSynth := True,
                 synthStartTimeRef := startTime,
                 synthOscillators := synthOscillators s1 @ scheduled,
                 destination := destination s1 @ scheduled\<rparr>))"

subsection \<open>The component as a transition system\<close>

text \<open>
  The effect on \<^verbatim>\<open>originalAudioUrl\<close>: the old element is paused and released, and a
  new one is created when the URL is truthy.
\<close>

definition originalAudioEffect :: "char list option \<Rightarrow> playback \<Rightarrow> playback" where
  "originalAudioEffect url s =
     s\<lparr>isPlayingOriginal := False,
       audioRef :=
         (case url of
            None \<Rightarrow> None
          | Some u \<Rightarrow> if u = [] then None else Some \<lparr>playing = False, currentTime = 0\<rparr>)\<rparr>"

definition initial :: playback where
  "initial =
     \<lparr>isPlayingOriginal = False, isPlayingSynth = False, metronomeEnabled = False,
      activeMeasureIdx = None, activePosIdx = None, activeSectionIdx = None,
      audioRef = None, synthContextRef = None, synthOscillators = [], synthTimeoutRefs = [],
      animationFrameRef = None, synthStartTimeRef = 0,
      destination = [], pendingTimeouts = [], frameRequests = [], frameCounter = 0,
      console = []\<rparr>"

text \<open>
  \<^verbatim>\<open>audio.onended\<close>, \<^verbatim>\<open>audio.onerror\<close> and the handler of a rejected
  \<^verbatim>\<open>play()\<close> promise: the element is silent and the flag is reset.
\<close>

definition audio_stopped :: "char list list \<Rightarrow> playback \<Rightarrow> playback" where
  "audio_stopped logged s =
     s\<lparr>audioRef := map_option (\<lambda>a. a\<lparr>playing := False\<rparr>) (audioRef s),
       isPlayingOriginal := False,
       console := console s @ logged\<rparr>"

text \<open>The browser runs the oldest waiting frame callback; an exception ends that callback.\<close>

definition animation_frame :: "GuitarTabResult \<Rightarrow> playback \<Rightarrow> playback" where
  "animation_frame data s =
     (case frameRequests s of
        [] \<Rightarrow> s
      | f # fs \<Rightarrow>
          (case updatePlaybackProgress data (seen_isPlayingSynth f) (s\<lparr>frameRequests := fs\<rparr>) of
             Inl e \<Rightarrow> s\<lparr>frameRequests := fs\<rparr>
           | Inr s' \<Rightarrow> s'))"

text \<open>The audio clock and the playing recording advance by \<open>dt\<close> seconds.\<close>

definition time_passes :: "real \<Rightarrow> playback \<Rightarrow> playback" where
  "time_passes dt s =
     s\<lparr>synthContextRef := map_option (\<lambda>now. now + dt) (synthContextRef s),
       audioRef :=
         map_option (\<lambda>a. if playing a then a\<lparr>currentTime := currentTime a + dt\<rparr> else a)
           (audioRef s)\<rparr>"

datatype event =
    ClickOriginal
  | ClickSynth real
  | ClickMetronome
  | AnimationFrame
  | AudioEnded
  | AudioError
  | PlayRejected
  | TimePasses real
  | UrlChanged "char list option"

fun step :: "GuitarTabResult \<Rightarrow> playback \<Rightarrow> event \<Rightarrow> playback" where
  "step data s ClickOriginal = toggleOriginalPlayback s"
| "step data s (ClickSynth ctxTime) = playSynth data ctxTime s"
| "step data s ClickMetronome = s\<lparr>metronomeEnabled := \<not> metronomeEnabled s\<rparr>"
| "step data s AnimationFrame = animation_frame data s"
| "step data s AudioEnded = audio_stopped [] s"
| "step data s AudioError = audio_stopped [''Audio error:''] s"
| "step data s PlayRejected = audio_stopped [''Audio play failed:''] s"
| "step data s (TimePasses dt) = time_passes dt s"
| "step data s (UrlChanged url) = originalAudioEffect url s"

definition run :: "GuitarTabResult \<Rightarrow> event list \<Rightarrow> playback" where
  "run data evs = foldl (step data) initial evs"

text \<open>What holds of every state the component reaches.\<close>

definition original_sounding :: "playback \<Rightarrow> bool" where
  "original_sounding s = (case audioRef s of None \<Rightarrow> False | Some a \<Rightarrow> playing a)"

definition synth_sounding :: "playback \<Rightarrow> bool" where
  "synth_sounding s = (destination s \<noteq> [])"

definition consistent :: "playback \<Rightarrow> bool" where
  "consistent s =
     (\<not> (isPlayingOriginal s \<and> isPlayingSynth s) \<and>
      (original_sounding s \<longrightarrow> isPlayingOriginal s) \<and>
      (\<not> isPlayingSynth s \<longrightarrow> synthOscillators s = [] \<and> frameRequests s = []) \<and>
      mset (destination s) \<subseteq># mset (synthOscillators s) \<and>
      set (pendingTimeouts s) \<subseteq> set (synthTimeoutRefs s) \<and>
      (\<forall>f \<in> set (frameRequests s).
         animationFrameRef s = Some (frame_id f) \<and> frame_id f \<noteq> 0 \<and> \<not> seen_isPlayingSynth f))"

subsection \<open>The raw transcription and its sanitization (geminiService)\<close>

text \<open>
  The value \<^verbatim>\<open>JSON.parse\<close> returns.  An object is the list of its own properties in
  insertion order.  An array also carries named properties, none after parsing: the
  sanitizer assigns \<^verbatim>\<open>measures\<close>, \<^verbatim>\<open>notes\<close> and \<^verbatim>\<open>chords\<close> to whatever
  object stands where a section or a measure is expected, and an array is an object.
\<close>

datatype json =
    JNull
  | JBool bool
  | JNum real
  | JStr "char list"
  | JArr "json list" "(char list \<times> json) list"
  | JObj "(char list \<times> json) list"

text \<open>
  The conversions of the JavaScript engine that the sanitizer reaches only on values of an
  unexpected type (\<^verbatim>\<open>ToNumber\<close> of a string, an array or an object in
  \<^verbatim>\<open>n.position >= 0\<close> and \<^verbatim>\<open>Math.round\<close>; \<^verbatim>\<open>toString()\<close> of a
  number, an array or an object as fret) are not code of this repository: they are a
  parameter, and each may throw.
\<close>

record engine =
  ToNumber :: "json \<Rightarrow> js_error + real option"
  ToString :: "json \<Rightarrow> js_error + char list"

definition bindE :: "'e + 'a \<Rightarrow> ('a \<Rightarrow> 'e + 'b) \<Rightarrow> 'e + 'b" where
  "bindE r f = (case r of Inl e \<Rightarrow> Inl e | Inr v \<Rightarrow> f v)"

fun mapE :: "('a \<Rightarrow> 'e + 'b) \<Rightarrow> 'a list \<Rightarrow> 'e + 'b list" where
  "mapE f [] = Inr []"
| "mapE f (x # xs) = bindE (f x) (\<lambda>y. bindE (mapE f xs) (\<lambda>ys. Inr (y # ys)))"

fun filterE :: "('a \<Rightarrow> 'e + bool) \<Rightarrow> 'a list \<Rightarrow> 'e + 'a list" where
  "filterE f [] = Inr []"
| "filterE f (x # xs) =
     bindE (f x) (\<lambda>b. bindE (filterE f xs) (\<lambda>ys. Inr (if b then x # ys else ys)))"

definition truthy :: "json \<Rightarrow> bool" where
  "truthy v =
     (case v of
        JNull \<Rightarrow> False
      | JBool b \<Rightarrow> b
      | JNum r \<Rightarrow> r \<noteq> 0
      | JStr s \<Rightarrow> s \<noteq> []
      | JArr xs ps \<Rightarrow> True
      | JObj ps \<Rightarrow> True)"

text \<open>\<^verbatim>\<open>!v\<close> for a property that may be missing (\<^verbatim>\<open>undefined\<close>).\<close>

definition falsy :: "json option \<Rightarrow> bool" where
  "falsy v = (case v of None \<Rightarrow> True | Some x \<Rightarrow> \<not> truthy x)"

definition is_array :: "json option \<Rightarrow> bool" where
  "is_array v = (case v of Some (JArr xs ps) \<Rightarrow> True | _ \<Rightarrow> False)"

text \<open>
  \<^verbatim>\<open>v.k\<close> for the keys the sanitizer reads (\<^verbatim>\<open>sections\<close>, \<^verbatim>\<open>measures\<close>,
  \<^verbatim>\<open>notes\<close>, \<^verbatim>\<open>chords\<close>, \<^verbatim>\<open>string\<close>, \<^verbatim>\<open>position\<close>,
  \<^verbatim>\<open>fret\<close>; no prototype has them): reading from \<^verbatim>\<open>null\<close> throws.
\<close>

definition own_prop :: "json \<Rightarrow> char list \<Rightarrow> json option" where
  "own_prop v k =
     (case v of
        JObj ps \<Rightarrow> map_of ps k
      | JArr xs ps \<Rightarrow> map_of ps k
      | _ \<Rightarrow> None)"

definition get :: "json \<Rightarrow> char list \<Rightarrow> js_error + json option" where
  "get v k = (if v = JNull then Inl TypeError else Inr (own_prop v k))"

fun assign :: "char list \<Rightarrow> json \<Rightarrow> (char list \<times> json) list \<Rightarrow> (char list \<times> json) list" where
  "assign k v [] = [(k, v)]"
| "assign k v (p # ps) = (if fst p = k then (k, v) # ps else p # assign k v ps)"

text \<open>
  \<^verbatim>\<open>v.k = x\<close> in module (strict) code: a property cannot be created on a primitive.
\<close>

definition put :: "json \<Rightarrow> char list \<Rightarrow> json \<Rightarrow> js_error + json" where
  "put v k x =
     (case v of
        JObj ps \<Rightarrow> Inr (JObj (assign k x ps))
      | JArr xs ps \<Rightarrow> Inr (JArr xs (assign k x ps))
      | _ \<Rightarrow> Inl TypeError)"

definition to_number :: "engine \<Rightarrow> json \<Rightarrow> js_error + real option" where
  "to_number rt v =
     (case v of
        JNull \<Rightarrow> Inr (Some 0)
      | JBool b \<Rightarrow> Inr (Some (if b then 1 else 0))
      | JNum r \<Rightarrow> Inr (Some r)
      | _ \<Rightarrow> ToNumber rt v)"

definition to_string :: "engine \<Rightarrow> json \<Rightarrow> js_error + char list" where
  "to_string rt v =
     (case v of
        JStr s \<Rightarrow> Inr s
      | JBool b \<Rightarrow> Inr (if b then ''true'' else ''false'')
      | _ \<Rightarrow> ToString rt v)"

text \<open>
  The filter callback
  \<^verbatim>\<open>n => n && typeof n.string === 'number' && n.position >= 0\<close>.
\<close>

definition keep :: "engine \<Rightarrow> json \<Rightarrow> js_error + bool" where
  "keep rt n =
     (if \<not> truthy n then Inr False
      else case own_prop n ''string'' of
             Some (JNum s) \<Rightarrow>
               (case own_prop n ''position'' of
                  None \<Rightarrow> Inr False
                | Some p \<Rightarrow>
                    bindE (to_number rt p)
                      (\<lambda>r. Inr (case r of None \<Rightarrow> False | Some x \<Rightarrow> 0 \<le> x)))
           | _ \<Rightarrow> Inr False)"

text \<open>\<^verbatim>\<open>Math.round\<close> rounds a half up, as \<^const>\<open>round\<close> does.\<close>

definition clamp_string :: "real \<Rightarrow> int" where
  "clamp_string s = min (max 1 (round s)) 6"

definition clamp_position :: "real \<Rightarrow> int" where
  "clamp_position p = min (max 0 (round p)) 15"

text \<open>\<^verbatim>\<open>note.fret?.toString() || '0'\<close>\<close>

definition fret_text :: "engine \<Rightarrow> json option \<Rightarrow> js_error + char list" where
  "fret_text rt f =
     (case f of
        None \<Rightarrow> Inr ''0''
      | Some JNull \<Rightarrow> Inr ''0''
      | Some v \<Rightarrow> bindE (to_string rt v) (\<lambda>s. Inr (if s = [] then ''0'' else s)))"

fun show_nat :: "nat \<Rightarrow> char list" where
  "show_nat n =
     (if n < 10 then [char_of (48 + n)] else show_nat (n div 10) @ [char_of (48 + n mod 10)])"

text \<open>The own enumerable properties \<^verbatim>\<open>{...note}\<close> copies.\<close>

definition own_props :: "json \<Rightarrow> (char list \<times> json) list" where
  "own_props v =
     (case v of
        JObj ps \<Rightarrow> ps
      | JArr xs ps \<Rightarrow> zip (map show_nat [0..<length xs]) xs @ ps
      | _ \<Rightarrow> [])"

text \<open>
  The map callback.  It runs on notes the filter kept, whose \<^verbatim>\<open>string\<close> is a number
  and whose \<^verbatim>\<open>position\<close> converts to a number.  On any other note the callback
  would store \<^verbatim>\<open>NaN\<close>, which \<^const>\<open>JNum\<close> does not hold: those branches are
  errors here, and \<open>sanitize_notes\<close> below never reaches them.
\<close>

definition sanitize_note :: "engine \<Rightarrow> json \<Rightarrow> js_error + json" where
  "sanitize_note rt note =
     bindE (case own_prop note ''string'' of
              Some (JNum s) \<Rightarrow> Inr (clamp_string s)
            | _ \<Rightarrow> Inl TypeError)
       (\<lambda>string'.
          bindE (case own_prop note ''position'' of
                   None \<Rightarrow> Inl TypeError
                 | Some p \<Rightarrow>
                     bindE (to_number rt p)
                       (\<lambda>r. case r of None \<Rightarrow> Inl TypeError | Some x \<Rightarrow> Inr (clamp_position x)))
            (\<lambda>position'.
               bindE (fret_text rt (own_prop note ''fret''))
                 (\<lambda>fret'.
                    Inr (JObj (assign ''fret'' (JStr fret')
                                (assign ''position'' (JNum (of_int position'))
                                  (assign ''string'' (JNum (of_int string'))
                                    (own_props note))))))))"

text \<open>The key of \<^verbatim>\<open>.sort((a, b) => a.position - b.position)\<close> on mapped notes.\<close>

definition position_of :: "json \<Rightarrow> real" where
  "position_of n = (case own_prop n ''position'' of Some (JNum r) \<Rightarrow> r | _ \<Rightarrow> 0)"

definition sanitize_notes :: "engine \<Rightarrow> json list \<Rightarrow> js_error + json list" where
  "sanitize_notes rt ns =
     bindE (filterE (keep rt) ns)
       (\<lambda>kept. bindE (mapE (sanitize_note rt) kept)
          (\<lambda>mapped. Inr (sort_key position_of mapped)))"

definition sanitize_measure :: "engine \<Rightarrow> json \<Rightarrow> js_error + json" where
  "sanitize_measure rt m =
     bindE (get m ''notes'')
       (\<lambda>n0. bindE (if falsy n0 then put m ''notes'' (JArr [] []) else Inr m)
          (\<lambda>m1. bindE (if falsy (own_prop m1 ''chords'') then put m1 ''chords'' (JArr [] []) else Inr m1)
             (\<lambda>m2. case own_prop m2 ''notes'' of
                      Some (JArr ns ps) \<Rightarrow>
                        bindE (sanitize_notes rt ns) (\<lambda>out. put m2 ''notes'' (JArr out []))
                    | _ \<Rightarrow> Inl TypeError)))"

definition sanitize_section :: "engine \<Rightarrow> json \<Rightarrow> js_error + json" where
  "sanitize_section rt section =
     bindE (get section ''measures'')
       (\<lambda>m0. bindE (if falsy m0 then put section ''measures'' (JArr [] []) else Inr section)
          (\<lambda>s1. case own_prop s1 ''measures'' of
                   Some (JArr ms ps) \<Rightarrow>
                     bindE (mapE (sanitize_measure rt) ms)
                       (\<lambda>ms'. put s1 ''measures'' (JArr ms' ps))
                 | _ \<Rightarrow> Inl TypeError))"

text \<open>
  What leaves \<^verbatim>\<open>generateGuitarTabFromAudio\<close> once the response is parsed: the
  sanitized transcription, or a \<^verbatim>\<open>TranscriptionError\<close> by its code.  An exception
  that is not a \<^verbatim>\<open>TranscriptionError\<close> is caught and rethrown as one whose code
  (\<^verbatim>\<open>QUOTA\<close>, \<^verbatim>\<open>AUTH\<close>, \<^verbatim>\<open>NETWORK\<close> or \<^verbatim>\<open>UNKNOWN\<close>) is read
  from the engine's message text: \<open>RETHROWN\<close> stands for these four.
\<close>

datatype error_code = INVALID_STRUCTURE | RETHROWN

definition sanitize :: "engine \<Rightarrow> json \<Rightarrow> error_code + json" where
  "sanitize rt parsed =
     (case get parsed ''sections'' of
        Inl e \<Rightarrow> Inl RETHROWN
      | Inr secs \<Rightarrow>
          if falsy secs \<or> \<not> is_array secs then Inl INVALID_STRUCTURE
          else (case secs of
                  Some (JArr ss ps) \<Rightarrow>
                    (case bindE (mapE (sanitize_section rt) ss)
                            (\<lambda>ss'. put parsed ''sections'' (JArr ss' ps)) of
                       Inl e \<Rightarrow> Inl RETHROWN
                     | Inr result \<Rightarrow> Inr result)
                | _ \<Rightarrow> Inl INVALID_STRUCTURE))"

subsection \<open>Shapes of raw and sanitized transcriptions\<close>

text \<open>
  The vocabulary of the statements about the sanitizer.  The elements of the arrays the
  sanitizer walks (none when the property is no array):
\<close>

definition raw_sections :: "json \<Rightarrow> json list" where
  "raw_sections parsed = (case own_prop parsed ''sections'' of Some (JArr ss ps) \<Rightarrow> ss | _ \<Rightarrow> [])"

definition raw_measures :: "json \<Rightarrow> json list" where
  "raw_measures section = (case own_prop section ''measures'' of Some (JArr ms ps) \<Rightarrow> ms | _ \<Rightarrow> [])"

definition raw_notes :: "json \<Rightarrow> json list" where
  "raw_notes m = (case own_prop m ''notes'' of Some (JArr ns ps) \<Rightarrow> ns | _ \<Rightarrow> [])"

text \<open>A value properties can be assigned to.\<close>

definition is_object :: "json \<Rightarrow> bool" where
  "is_object v = (case v of JObj ps \<Rightarrow> True | JArr xs ps \<Rightarrow> True | _ \<Rightarrow> False)"

text \<open>
  A result is structurally complete when every section has a \<^verbatim>\<open>measures\<close> array and
  every measure a \<^verbatim>\<open>notes\<close> and a \<^verbatim>\<open>chords\<close> array.
\<close>

definition measure_complete :: "json \<Rightarrow> bool" where
  "measure_complete m = (is_array (own_prop m ''notes'') \<and> is_array (own_prop m ''chords''))"

definition section_complete :: "json \<Rightarrow> bool" where
  "section_complete section =
     (is_array (own_prop section ''measures'') \<and> list_all measure_complete (raw_measures section))"

definition structurally_complete :: "json \<Rightarrow> bool" where
  "structurally_complete t =
     (is_array (own_prop t ''sections'') \<and> list_all section_complete (raw_sections t))"

text \<open>
  The inputs the sanitizer repairs: sections and measures are objects whose
  \<^verbatim>\<open>measures\<close> and \<^verbatim>\<open>notes\<close> are falsy or arrays, and no conversion the engine
  makes on the position or the fret of a note throws.  Nothing else is asked of a note.
\<close>

definition note_converts :: "engine \<Rightarrow> json \<Rightarrow> bool" where
  "note_converts rt n =
     ((case own_prop n ''position'' of None \<Rightarrow> True | Some p \<Rightarrow> to_number rt p \<noteq> Inl TypeError) \<and>
      fret_text rt (own_prop n ''fret'') \<noteq> Inl TypeError)"

definition measure_shaped :: "engine \<Rightarrow> json \<Rightarrow> bool" where
  "measure_shaped rt m =
     (is_object m \<and> (falsy (own_prop m ''notes'') \<or> is_array (own_prop m ''notes'')) \<and>
      list_all (note_converts rt) (raw_notes m))"

definition section_shaped :: "engine \<Rightarrow> json \<Rightarrow> bool" where
  "section_shaped rt section =
     (is_object section \<and>
      (falsy (own_prop section ''measures'') \<or> is_array (own_prop section ''measures'')) \<and>
      list_all (measure_shaped rt) (raw_measures section))"

definition chords_shaped :: "json \<Rightarrow> bool" where
  "chords_shaped m = (falsy (own_prop m ''chords'') \<or> is_array (own_prop m ''chords''))"

subsection \<open>The caller (App.tsx, processAudio)\<close>

datatype AppState = IDLE | RECORDING | PROCESSING | RESULT | ERROR

record app =
  appState :: AppState
  result :: "json option"
  errorDetails :: "error_code option"

definition processAudio :: "engine \<Rightarrow> json \<Rightarrow> app \<Rightarrow> app" where
  "processAudio rt parsed a =
     (case sanitize rt parsed of
        Inr tabData \<Rightarrow> a\<lparr>errorDetails := None, result := Some tabData, appState := RESULT\<rparr>
      | Inl code \<Rightarrow> a\<lparr>errorDetails := Some code, appState := ERROR\<rparr>)"

text \<open>\<^verbatim>\<open>state === AppState.RESULT && result && <TabRenderer data={result} ... />\<close>\<close>

definition renderer_mounted :: "app \<Rightarrow> bool" where
  "renderer_mounted a = (appState a = RESULT \<and> result a \<noteq> None)"

subsection \<open>Example inputs\<close>

definition demo_note :: TabNote where
  "demo_note = \<lparr>string = 1, fret = ''12'', position = 4, confidence = None\<rparr>"

definition demo_h :: TabNote where
  "demo_h = \<lparr>string = 1, fret = ''3h5'', position = 0, confidence = None\<rparr>"

definition demo_b :: TabNote where
  "demo_b = \<lparr>string = 6, fret = ''12b'', position = 8, confidence = None\<rparr>"

definition demo_bad :: TabNote where
  "demo_bad = \<lparr>string = 2, fret = ''xyz'', position = 2, confidence = None\<rparr>"

definition open_note :: TabNote where
  "open_note = \<lparr>string = 1, fret = ''0'', position = 0, confidence = None\<rparr>"

definition demo_tab :: GuitarTabResult where
  "demo_tab =
     \<lparr>songTitle = ''Demo'', artist = None, key = None, tempo = Some 120,
      tuning = Some ''E Standard'',
      sections =
        [\<lparr>title = ''A'', measures = [\<lparr>chords = [], notes' = [open_note]\<rparr>]\<rparr>,
         \<lparr>title = ''B'', measures = [\<lparr>chords = [], notes' = [open_note]\<rparr>]\<rparr>],
      rawAscii = None\<rparr>"

definition tick_state :: "real \<Rightarrow> playback" where
  "tick_state now =
     initial\<lparr>isPlayingSynth := True, synthContextRef := Some now, synthStartTimeRef := 1 / 5\<rparr>"

text \<open>An engine for the closed examples: none of them reaches a conversion.\<close>

definition demo_engine :: engine where
  "demo_engine = \<lparr>ToNumber = (\<lambda>v. Inl TypeError), ToString = (\<lambda>v. Inl TypeError)\<rparr>"

definition raw_note :: "real \<Rightarrow> char list \<Rightarrow> real \<Rightarrow> json" where
  "raw_note s f p = JObj [(''string'', JNum s), (''fret'', JStr f), (''position'', JNum p)]"

definition demo_measure :: json where
  "demo_measure =
     JObj [(''chords'', JArr [JStr ''Am''] []),
           (''notes'',
            JArr [raw_note 7.6 ''3'' 17.4, raw_note (- 3) ''5'' 2, raw_note 1 ''x'' (- 1), JNull,
                  JObj [(''string'', JStr ''1''), (''fret'', JStr ''2''), (''position'', JNum 0)],
                  JObj [(''string'', JNum 2), (''position'', JNum 2)]] [])]"

definition demo_measure_sanitized :: json where
  "demo_measure_sanitized =
     JObj [(''chords'', JArr [JStr ''Am''] []),
           (''notes'',
            JArr [raw_note 1 ''5'' 2,
                  JObj [(''string'', JNum 2), (''position'', JNum 2), (''fret'', JStr ''0'')],
                  raw_note 6 ''3'' 15] [])]"

definition plain_measure :: json where
  "plain_measure = JObj [(''chords'', JArr [] []), (''notes'', JArr [raw_note 1 ''0'' 0] [])]"

definition demo_raw :: json where
  "demo_raw =
     JObj [(''songTitle'', JStr ''Demo''),
           (''sections'',
            JArr [JObj [(''title'', JStr ''A''), (''measures'', JArr [demo_measure, JObj []] [])],
                  JObj [(''title'', JStr ''B'')]] [])]"

definition demo_sanitized :: json where
  "demo_sanitized =
     JObj [(''songTitle'', JStr ''Demo''),
           (''sections'',
            JArr [JObj [(''title'', JStr ''A''),
                        (''measures'',
                         JArr [demo_measure_sanitized,
                               JObj [(''notes'', JArr [] []), (''chords'', JArr [] [])]] [])],
                  JObj [(''title'', JStr ''B''), (''measures'', JArr [] [])]] [])]"

section \<open>Properties\<close>

subsection \<open>Time grid\<close>

lemma tempo_falsy: "t = None \<or> t = Some 0 \<Longrightarrow> tempo_or_default t = tempo_or_default (Some 120)"
  by (auto simp: tempo_or_default_def)

lemma grid_cong:
  assumes "tempo_or_default t = tempo_or_default t'"
  shows "secondsPerBeat t = secondsPerBeat t'" "secondsPerMeasure t = secondsPerMeasure t'"
    "secondsPerPosition t = secondsPerPosition t'"
  using assms by (simp_all add: secondsPerBeat_def secondsPerMeasure_def secondsPerPosition_def)

lemma schedule_note_cong:
  assumes "tempo_or_default t = tempo_or_default t'"
  shows "schedule_note t f st = schedule_note t' f st"
  using grid_cong[OF assms] by (intro ext) (simp add: schedule_note_def split: option.splits)

lemma schedule_measure_cong:
  assumes "tempo_or_default t = tempo_or_default t'"
  shows "schedule_measure t f m st x = schedule_measure t' f m st x"
  using grid_cong[OF assms] schedule_note_cong[OF assms]
  by (simp add: schedule_measure_def metronome_clicks_def)

lemma schedule_measures_cong:
  assumes "tempo_or_default t = tempo_or_default t'"
  shows "schedule_measures t f m st xs = schedule_measures t' f m st xs"
  using grid_cong[OF assms] schedule_measure_cong[OF assms]
  by (induction xs arbitrary: st) simp_all

lemma schedule_sections_cong:
  assumes "tempo_or_default t = tempo_or_default t'"
  shows "schedule_sections t f m st xs = schedule_sections t' f m st xs"
  using schedule_measures_cong[OF assms]
  by (induction xs arbitrary: st) simp_all

lemma flatMeasures_tempo: "flatMeasures (d\<lparr>tempo := t\<rparr>) = flatMeasures (d\<lparr>tempo := t'\<rparr>)"
  by (simp add: flatMeasures_def)

lemma updatePlaybackProgress_cong:
  assumes "tempo_or_default t = tempo_or_default t'"
  shows "updatePlaybackProgress (d\<lparr>tempo := t\<rparr>) seen s = updatePlaybackProgress (d\<lparr>tempo := t'\<rparr>) seen s"
  using grid_cong(3)[OF assms] flatMeasures_tempo[where d=d and t=t and t'=t']
  by (simp add: updatePlaybackProgress_def Let_def split: option.splits)

lemma playSynth_cong:
  assumes "tempo_or_default t = tempo_or_default t'"
  shows "playSynth (d\<lparr>tempo := t\<rparr>) c s = playSynth (d\<lparr>tempo := t'\<rparr>) c s"
  using schedule_sections_cong[OF assms]
  by (simp add: playSynth_def)

text \<open>
  Claim C4 as stated fails: a negative tempo is truthy, so \<^verbatim>\<open>data.tempo || 120\<close>
  keeps it.  At tempo -60 a beat lasts -1 second, not the half second of tempo 120.
\<close>

theorem tempo_default_counterexample:
  "(- 60 :: real) \<le> 0 \<and> secondsPerBeat (Some (- 60)) = - 1 \<and> secondsPerBeat (Some 120) = 1 / 2
   \<and> secondsPerMeasure (Some (- 60)) = - 4 \<and> secondsPerMeasure (Some 120) = 2"
  by (simp add: secondsPerBeat_def secondsPerMeasure_def tempo_or_default_def)

text \<open>
  Claim C4, amended: for an absent tempo and for tempo 0 the time grid is the one of tempo
  120, in the scheduler (\<^const>\<open>playSynth\<close>) and in the playhead
  (\<^const>\<open>updatePlaybackProgress\<close>) alike.
\<close>

theorem tempo_default:
  assumes "t = None \<or> t = Some 0"
  shows "secondsPerBeat t = secondsPerBeat (Some 120) \<and>
         secondsPerPosition t = secondsPerPosition (Some 120) \<and>
         secondsPerMeasure t = secondsPerMeasure (Some 120) \<and>
         playSynth (d\<lparr>tempo := t\<rparr>) ctxTime s = playSynth (d\<lparr>tempo := Some 120\<rparr>) ctxTime s \<and>
         updatePlaybackProgress (d\<lparr>tempo := t\<rparr>) seen s =
           updatePlaybackProgress (d\<lparr>tempo := Some 120\<rparr>) seen s"
  using grid_cong[OF tempo_falsy[OF assms]] playSynth_cong[OF tempo_falsy[OF assms]]
    updatePlaybackProgress_cong[OF tempo_falsy[OF assms]]
  by simp

theorem tempo_default_witness:
  "secondsPerBeat None = 1 / 2 \<and> secondsPerPosition (Some 0) = 1 / 8 \<and> secondsPerMeasure None = 2"
  using tempo_default [of None] tempo_default [of "Some 0"]
  by (simp add: secondsPerBeat_def secondsPerPosition_def secondsPerMeasure_def tempo_or_default_def)

subsection \<open>Frequency mapper\<close>

lemma tuningBaseFreqs_table:
  assumes "own_or_plain tn"
  shows "tuningBaseFreqs tn =
     (case map_of TUNING_FREQS (case tn of None \<Rightarrow> ''E Standard'' | Some x \<Rightarrow> x) of
        Some fs \<Rightarrow> fs
      | None \<Rightarrow> [82.41, 110.00, 146.83, 196.00, 246.94, 329.63])"
  using assms
  by (auto simp add: tuningBaseFreqs_def TUNING_FREQS_def own_or_plain_def Let_def
      split: option.splits)

lemma length_tuningBaseFreqs: "own_or_plain tn \<Longrightarrow> length (tuningBaseFreqs tn) = 6"
  by (auto simp add: tuningBaseFreqs_def TUNING_FREQS_def own_or_plain_def Let_def
      split: option.splits)

lemma js_index_string:
  assumes "length freqs = 6" "1 \<le> k" "k \<le> 6"
  shows "js_index freqs (6 - real_of_int k) = Some (freqs ! nat (6 - k))"
proof -
  have "6 - real_of_int k = of_int (6 - k)" by simp
  then have "\<lfloor>6 - real_of_int k\<rfloor> = 6 - k" by (simp only: floor_of_int)
  with assms show ?thesis by (simp add: js_index_def)
qed

text \<open>
  For a tuning name that is a key of the table, or no inherited name: a string number 1 to
  6 and a fret that parses to \<open>n\<close> give the frequency \<open>openFreq * 2 powr (n / 12)\<close>,
  where \<open>openFreq\<close> is entry \<open>6 - string\<close> of the table of the named tuning, and of
  the table of E Standard when the name is no key or is absent.
\<close>

lemma frequency_mapper:
  assumes "parseInt (fret note) = Some n" and "string note = real_of_int k" and "1 \<le> k" and "k \<le> 6"
    and "own_or_plain tn"
  shows "(let name = (case tn of None \<Rightarrow> ''E Standard'' | Some x \<Rightarrow> x);
              table = (case map_of TUNING_FREQS name of
                         Some fs \<Rightarrow> fs
                       | None \<Rightarrow> [82.41, 110.00, 146.83, 196.00, 246.94, 329.63]);
              openFreq = table ! nat (6 - k)
          in schedule_note t (tuningBaseFreqs tn) measureStartTime note =
               [tone (Some (openFreq * 2 powr (real_of_int n / 12)))
                     (measureStartTime + position note * secondsPerPosition t)])"
proof -
  have idx: "js_index (tuningBaseFreqs tn) (6 - real_of_int k) = Some (tuningBaseFreqs tn ! nat (6 - k))"
    using js_index_string[OF length_tuningBaseFreqs[OF assms(5)] assms(3,4)] .
  have a: "schedule_note t (tuningBaseFreqs tn) measureStartTime note =
      [tone (Some (tuningBaseFreqs tn ! nat (6 - k) * 2 powr (real_of_int n / 12)))
            (measureStartTime + position note * secondsPerPosition t)]"
    using assms(1,2) idx by (simp add: schedule_note_def note_frequency_def)
  show ?thesis using a by (simp add: tuningBaseFreqs_table[OF assms(5)] Let_def)
qed

text \<open>
  Claim C6 at the tuning name \<^verbatim>\<open>constructor\<close>: the lookup finds the inherited member,
  the fallback to E Standard is not taken, and the frequency of string 1 at fret 12 is
  \<^verbatim>\<open>NaN\<close>.  A name that is neither a key nor inherited does fall back: string 1 at
  fret 12 sounds at twice 329.63, as in E Standard itself.
\<close>

theorem inherited_tuning_name:
  "tuningBaseFreqs (Some ''constructor'') = [] \<and>
   note_frequency (tuningBaseFreqs (Some ''constructor'')) 1 12 = None \<and>
   schedule_note (Some 120) (tuningBaseFreqs (Some ''constructor'')) 1 demo_note =
     [tone None (3 / 2)] \<and>
   note_frequency (tuningBaseFreqs (Some ''Nashville'')) 1 12 = Some (329.63 * 2) \<and>
   note_frequency (tuningBaseFreqs (Some ''E Standard'')) 1 12 = Some (329.63 * 2)"
proof -
  have p: "parseInt (fret demo_note) = Some 12" by code_simp
  have c: "tuningBaseFreqs (Some ''constructor'') = []"
    by (simp add: tuningBaseFreqs_def TUNING_FREQS_def Object_prototype_names_def)
  have n: "note_frequency (tuningBaseFreqs (Some ''Nashville'')) 1 12 = Some (329.63 * 2)"
    by (simp add: note_frequency_def tuningBaseFreqs_def TUNING_FREQS_def Object_prototype_names_def
        js_index_def)
  have e: "note_frequency (tuningBaseFreqs (Some ''E Standard'')) 1 12 = Some (329.63 * 2)"
    by (simp add: note_frequency_def tuningBaseFreqs_def TUNING_FREQS_def js_index_def)
  show ?thesis
    using p c n e
    by (simp add: schedule_note_def note_frequency_def js_index_def demo_note_def
        secondsPerPosition_def secondsPerMeasure_def tempo_or_default_def)
qed

lemma frequency_mapper_example:
  "parseInt (fret demo_note) = Some 12 \<and> string demo_note = real_of_int 1
   \<and> schedule_note (Some 120) (tuningBaseFreqs (Some ''Drop D'')) 1 demo_note =
       [tone (Some (329.63 * 2)) (3 / 2)]"
proof -
  have p: "parseInt (fret demo_note) = Some 12" by code_simp
  have s: "string demo_note = real_of_int 1" by (simp add: demo_note_def)
  have o: "own_or_plain (Some ''Drop D'')"
    by (simp add: own_or_plain_def Object_prototype_names_def)
  have t: "map_of TUNING_FREQS ''Drop D'' = Some [73.42, 110.00, 146.83, 196.00, 246.94, 329.63]"
    by (simp add: TUNING_FREQS_def)
  show ?thesis
    using frequency_mapper[OF p s _ _ o, of "Some 120" 1] p s t
    by (simp add: Let_def secondsPerPosition_def secondsPerMeasure_def tempo_or_default_def demo_note_def)
qed

subsection \<open>Frets that are not plain numbers\<close>

lemma decimal_digit_codes:
  "radix_digit 10 c \<Longrightarrow> 48 \<le> (of_char c :: nat) \<and> (of_char c :: nat) \<le> 57"
  by (auto simp: radix_digit_def digit_val_def Let_def split: if_splits option.splits)

lemma decimal_digit_plain:
  assumes "radix_digit 10 c"
  shows "\<not> is_ws c" "c \<noteq> CHR ''+''" "c \<noteq> CHR ''-''" "c \<noteq> CHR ''x''" "c \<noteq> CHR ''X''"
  using decimal_digit_codes[OF assms] by (auto simp: is_ws_def)

lemma takeWhile_prefix:
  assumes "\<forall>c \<in> set ds. P c" and "rest = [] \<or> \<not> P (hd rest)"
  shows "takeWhile P (ds @ rest) = ds"
proof -
  have "takeWhile P rest = []" using assms(2) by (cases rest) auto
  with assms(1) show ?thesis by (simp add: takeWhile_append2)
qed

lemma takeWhile_Nil_iff: "takeWhile P xs = [] \<longleftrightarrow> xs = [] \<or> \<not> P (hd xs)"
  by (cases xs) auto

lemma unsigned_part_digits:
  assumes "ds \<noteq> []" and "\<forall>c \<in> set ds. radix_digit 10 c"
  shows "dropWhile is_ws (ds @ rest) = ds @ rest" "unsigned_part (ds @ rest) = ds @ rest"
proof -
  obtain d ds' where ds: "ds = d # ds'" using assms(1) by (cases ds) auto
  then have d: "radix_digit 10 d" using assms(2) by simp
  show a: "dropWhile is_ws (ds @ rest) = ds @ rest"
    using decimal_digit_plain(1)[OF d] ds by simp
  show "unsigned_part (ds @ rest) = ds @ rest"
    using decimal_digit_plain(2,3)[OF d] a ds by (simp add: unsigned_part_def)
qed

lemma no_hex_prefix:
  assumes "ds \<noteq> []" and "\<forall>c \<in> set ds. radix_digit 10 c"
    and "\<not> (ds = ''0'' \<and> rest \<noteq> [] \<and> (hd rest = CHR ''x'' \<or> hd rest = CHR ''X''))"
  shows "take 2 (ds @ rest) \<noteq> ''0x'' \<and> take 2 (ds @ rest) \<noteq> ''0X''"
proof (cases ds)
  case Nil
  with assms(1) show ?thesis by simp
next
  case (Cons d ds')
  show ?thesis
  proof (cases ds')
    case Nil
    with Cons assms(3) show ?thesis by (cases rest) auto
  next
    case (Cons e ds'')
    with \<open>ds = d # ds'\<close> assms(2) have "radix_digit 10 e" by simp
    from decimal_digit_plain(4,5)[OF this] Cons \<open>ds = d # ds'\<close> show ?thesis by simp
  qed
qed

lemma parseInt_decimal_prefix:
  assumes "ds \<noteq> []" and "\<forall>c \<in> set ds. radix_digit 10 c"
    and "rest = [] \<or> \<not> radix_digit 10 (hd rest)"
    and "\<not> (ds = ''0'' \<and> rest \<noteq> [] \<and> (hd rest = CHR ''x'' \<or> hd rest = CHR ''X''))"
  shows "parseInt (ds @ rest) = Some (int (digits_value 10 ds))"
proof -
  obtain d ds' where ds: "ds = d # ds'" using assms(1) by (cases ds) auto
  then have d: "radix_digit 10 d" using assms(2) by simp
  have neg: "hd (dropWhile is_ws (ds @ rest)) \<noteq> CHR ''-''"
    using unsigned_part_digits(1)[OF assms(1,2)] decimal_digit_plain(3)[OF d] ds by simp
  show ?thesis
    using unsigned_part_digits(2)[OF assms(1,2), of rest] no_hex_prefix[OF assms(1,2,4)]
      takeWhile_prefix[OF assms(2,3)] assms(1) neg
    by (simp add: parseInt_def Let_def)
qed

lemma parseInt_None_iff:
  "parseInt s = None \<longleftrightarrow>
     (let body = unsigned_part s
      in if take 2 body = ''0x'' \<or> take 2 body = ''0X''
         then drop 2 body = [] \<or> \<not> radix_digit 16 (hd (drop 2 body))
         else body = [] \<or> \<not> radix_digit 10 (hd body))"
  by (simp add: parseInt_def Let_def takeWhile_Nil_iff)

lemma schedule_note_Nil_iff: "schedule_note t freqs st n = [] \<longleftrightarrow> parseInt (fret n) = None"
  by (simp add: schedule_note_def split: option.splits)

text \<open>
  Claim C10 as stated fails on a fret that starts with \<^verbatim>\<open>0x\<close>: there
  \<^verbatim>\<open>parseInt\<close> reads a hexadecimal literal.  The fret \<^verbatim>\<open>0x\<close> starts with
  the decimal digit 0 and is followed by a character that is no digit, yet it parses to
  \<^verbatim>\<open>NaN\<close> and the note is skipped; \<^verbatim>\<open>0x5\<close> parses to 5, not to its
  decimal prefix 0.
\<close>

theorem parseInt_prefix_counterexample:
  "parseInt ''0x'' = None \<and>
   schedule_note None (tuningBaseFreqs None) 0
     \<lparr>string = 1, fret = ''0x'', position = 0, confidence = None\<rparr> = [] \<and>
   parseInt ''0x5'' = Some 5"
  by (simp add: schedule_note_def) code_simp

text \<open>
  Claim C10, amended: a fret that starts with a run of decimal digits, followed by nothing
  or by a character that is no decimal digit, parses to the value of the run and the note
  is scheduled at the frequency of that fret, unless the run is the single digit 0 followed
  by \<^verbatim>\<open>x\<close> or \<^verbatim>\<open>X\<close>.  Among the frets that, after the leading white space
  and an optional sign, do not start with \<^verbatim>\<open>0x\<close> or \<^verbatim>\<open>0X\<close>, a note is
  skipped exactly when that text does not start with a decimal digit.
\<close>

theorem parseInt_prefix:
  assumes "fret note = ds @ rest" and "ds \<noteq> []" and "\<forall>c \<in> set ds. radix_digit 10 c"
    and "rest = [] \<or> \<not> radix_digit 10 (hd rest)"
    and "\<not> (ds = ''0'' \<and> rest \<noteq> [] \<and> (hd rest = CHR ''x'' \<or> hd rest = CHR ''X''))"
  shows "parseInt (fret note) = Some (int (digits_value 10 ds)) \<and>
         schedule_note t freqs measureStartTime note =
           [tone (note_frequency freqs (string note) (int (digits_value 10 ds)))
                 (measureStartTime + position note * secondsPerPosition t)] \<and>
         (\<forall>other. take 2 (unsigned_part (fret other)) \<noteq> ''0x'' \<and>
                  take 2 (unsigned_part (fret other)) \<noteq> ''0X'' \<longrightarrow>
            (schedule_note t freqs measureStartTime other = [] \<longleftrightarrow>
               unsigned_part (fret other) = [] \<or>
               \<not> radix_digit 10 (hd (unsigned_part (fret other)))))"
proof -
  have p: "parseInt (fret note) = Some (int (digits_value 10 ds))"
    using parseInt_decimal_prefix[OF assms(2-5)] assms(1) by simp
  then have s: "schedule_note t freqs measureStartTime note =
           [tone (note_frequency freqs (string note) (int (digits_value 10 ds)))
                 (measureStartTime + position note * secondsPerPosition t)]"
    by (simp add: schedule_note_def)
  show ?thesis using p s by (simp add: schedule_note_Nil_iff parseInt_None_iff Let_def)
qed

theorem parseInt_prefix_witness:
  "parseInt (fret demo_h) = Some 3 \<and> parseInt (fret demo_b) = Some 12 \<and>
   schedule_note (Some 120) (tuningBaseFreqs None) 0 demo_h =
     [tone (Some (329.63 * 2 powr (3 / 12))) 0] \<and>
   schedule_note (Some 120) (tuningBaseFreqs None) 0 demo_b = [tone (Some (82.41 * 2)) 1]"
proof -
  have d3: "\<forall>c \<in> set ''3''. radix_digit 10 c" and d12: "\<forall>c \<in> set ''12''. radix_digit 10 c"
    and nh: "''h5'' = [] \<or> \<not> radix_digit 10 (hd ''h5'')"
    and nb: "''b'' = [] \<or> \<not> radix_digit 10 (hd ''b'')"
    by (simp_all add: radix_digit_def digit_val_def)
  have v3: "digits_value 10 ''3'' = 3" and v12: "digits_value 10 ''12'' = 12"
    by (simp_all add: digits_value_def digit_val_def)
  have h: "parseInt (fret demo_h) = Some (int (digits_value 10 ''3'')) \<and>
      schedule_note (Some 120) (tuningBaseFreqs None) 0 demo_h =
        [tone (note_frequency (tuningBaseFreqs None) (string demo_h) (int (digits_value 10 ''3'')))
              (0 + position demo_h * secondsPerPosition (Some 120))]"
    using parseInt_prefix [of demo_h "''3''" "''h5''" "Some 120" "tuningBaseFreqs None" 0] d3 nh
    by (simp add: demo_h_def)
  have b: "parseInt (fret demo_b) = Some (int (digits_value 10 ''12'')) \<and>
      schedule_note (Some 120) (tuningBaseFreqs None) 0 demo_b =
        [tone (note_frequency (tuningBaseFreqs None) (string demo_b) (int (digits_value 10 ''12'')))
              (0 + position demo_b * secondsPerPosition (Some 120))]"
    using parseInt_prefix [of demo_b "''12''" "''b''" "Some 120" "tuningBaseFreqs None" 0] d12 nb
    by (simp add: demo_b_def)
  have fh: "note_frequency (tuningBaseFreqs None) (string demo_h) 3 = Some (329.63 * 2 powr (3 / 12))"
    by (simp add: note_frequency_def tuningBaseFreqs_def TUNING_FREQS_def js_index_def demo_h_def)
  have fb: "note_frequency (tuningBaseFreqs None) (string demo_b) 12 = Some (82.41 * 2)"
    by (simp add: note_frequency_def tuningBaseFreqs_def TUNING_FREQS_def js_index_def demo_b_def)
  show ?thesis
    using h b fh fb v3 v12
    by (simp add: demo_h_def demo_b_def secondsPerPosition_def secondsPerMeasure_def
        tempo_or_default_def)
qed

subsection \<open>A malformed fret and the timing of the other notes\<close>

lemma concat_map_skip:
  assumes "g bad = []"
  shows "concat (map g (sort_key k (xs @ bad # ys))) = concat (map g (sort_key k (xs @ ys)))"
proof -
  have drop_empty: "concat (map g zs) = concat (map g (filter (\<lambda>n. g n \<noteq> []) zs))" for zs
    by (induction zs) simp_all
  have "filter (\<lambda>n. g n \<noteq> []) (sort_key k (xs @ bad # ys)) =
        filter (\<lambda>n. g n \<noteq> []) (sort_key k (xs @ ys))"
    using assms by (simp add: filter_sort)
  then show ?thesis
    using drop_empty[of "sort_key k (xs @ bad # ys)"] drop_empty[of "sort_key k (xs @ ys)"]
    by simp
qed

lemma schedule_measure_skip:
  assumes "parseInt (fret bad) = None"
  shows "schedule_measure t freqs metro st (m\<lparr>notes' := xs @ bad # ys\<rparr>) =
         schedule_measure t freqs metro st (m\<lparr>notes' := xs @ ys\<rparr>)"
proof -
  have "schedule_note t freqs st bad = []" using assms by (simp add: schedule_note_def)
  from concat_map_skip[where g = "schedule_note t freqs st" and bad = bad, OF this] show ?thesis
    by (simp add: schedule_measure_def sortedNotes_def)
qed

lemma schedule_measures_swap:
  assumes "\<And>st. schedule_measure t freqs metro st a = schedule_measure t freqs metro st b"
  shows "schedule_measures t freqs metro st (msa @ a # msb) =
         schedule_measures t freqs metro st (msa @ b # msb)"
  using assms by (induction msa arbitrary: st) simp_all

lemma schedule_sections_swap:
  assumes "\<And>st. schedule_measures t freqs metro st (measures a) =
                 schedule_measures t freqs metro st (measures b)"
  shows "schedule_sections t freqs metro st (pre @ a # post) =
         schedule_sections t freqs metro st (pre @ b # post)"
  using assms by (induction pre arbitrary: st) simp_all

lemma schedule_measures_end:
  "snd (schedule_measures t freqs metro st ms) = st + real (length ms) * secondsPerMeasure t"
  by (induction ms arbitrary: st) (simp_all add: split_beta algebra_simps)

lemma tone_in_measure:
  assumes "n \<in> set (notes' m)" and "parseInt (fret n) = Some k"
  shows "tone (note_frequency freqs (string n) k) (st + position n * secondsPerPosition t)
           \<in> set (schedule_measure t freqs metro st m)"
proof -
  have "n \<in> set (sortedNotes m)" using assms(1) by (simp add: sortedNotes_def)
  moreover have "schedule_note t freqs st n =
      [tone (note_frequency freqs (string n) k) (st + position n * secondsPerPosition t)]"
    using assms(2) by (simp add: schedule_note_def)
  ultimately have "\<exists>x \<in> set (sortedNotes m).
      tone (note_frequency freqs (string n) k) (st + position n * secondsPerPosition t)
        \<in> set (schedule_note t freqs st x)"
    by (intro bexI[of _ n]) simp_all
  then show ?thesis by (simp add: schedule_measure_def)
qed

text \<open>
  Claim C9: a note whose fret does not parse adds no oscillator; the measure is scheduled
  exactly as without that note, so every other note of the measure keeps its onset
  \<open>measureStartTime + position * secondsPerPosition\<close>; the whole piece is scheduled as
  without the note, and a measure starts \<open>secondsPerMeasure\<close> after its predecessor
  whatever its notes are.
\<close>

theorem malformed_fret_keeps_timing:
  assumes "parseInt (fret bad) = None"
  shows "schedule_note t freqs measureStartTime bad = [] \<and>
         schedule_measure t freqs metro measureStartTime (m\<lparr>notes' := xs @ bad # ys\<rparr>) =
           schedule_measure t freqs metro measureStartTime (m\<lparr>notes' := xs @ ys\<rparr>) \<and>
         (\<forall>n \<in> set (xs @ ys). \<forall>k. parseInt (fret n) = Some k \<longrightarrow>
            tone (note_frequency freqs (string n) k)
                 (measureStartTime + position n * secondsPerPosition t)
              \<in> set (schedule_measure t freqs metro measureStartTime
                       (m\<lparr>notes' := xs @ bad # ys\<rparr>))) \<and>
         schedule_sections t freqs metro startTime
             (pre @ sec\<lparr>measures := msa @ m\<lparr>notes' := xs @ bad # ys\<rparr> # msb\<rparr> # post) =
           schedule_sections t freqs metro startTime
             (pre @ sec\<lparr>measures := msa @ m\<lparr>notes' := xs @ ys\<rparr> # msb\<rparr> # post) \<and>
         snd (schedule_measures t freqs metro startTime
                (msa @ [m\<lparr>notes' := xs @ bad # ys\<rparr>])) =
           startTime + real (length msa + 1) * secondsPerMeasure t"
proof -
  have skip: "schedule_note t freqs measureStartTime bad = []"
    using assms by (simp add: schedule_note_def)
  have same: "schedule_measure t freqs metro st (m\<lparr>notes' := xs @ bad # ys\<rparr>) =
      schedule_measure t freqs metro st (m\<lparr>notes' := xs @ ys\<rparr>)" for st
    using schedule_measure_skip[OF assms] .
  have others: "\<forall>n \<in> set (xs @ ys). \<forall>k. parseInt (fret n) = Some k \<longrightarrow>
            tone (note_frequency freqs (string n) k)
                 (measureStartTime + position n * secondsPerPosition t)
              \<in> set (schedule_measure t freqs metro measureStartTime
                       (m\<lparr>notes' := xs @ bad # ys\<rparr>))"
    by (intro ballI allI impI tone_in_measure) auto
  have ms: "schedule_measures t freqs metro st (msa @ m\<lparr>notes' := xs @ bad # ys\<rparr> # msb) =
      schedule_measures t freqs metro st (msa @ m\<lparr>notes' := xs @ ys\<rparr> # msb)" for st
    by (rule schedule_measures_swap) (rule same)
  have secs: "schedule_sections t freqs metro startTime
             (pre @ sec\<lparr>measures := msa @ m\<lparr>notes' := xs @ bad # ys\<rparr> # msb\<rparr> # post) =
           schedule_sections t freqs metro startTime
             (pre @ sec\<lparr>measures := msa @ m\<lparr>notes' := xs @ ys\<rparr> # msb\<rparr> # post)"
    by (rule schedule_sections_swap) (simp add: ms)
  show ?thesis
    using skip same others secs by (simp add: schedule_measures_end)
qed

theorem malformed_fret_keeps_timing_witness:
  "parseInt (fret demo_bad) = None \<and>
   schedule_measure (Some 120) (tuningBaseFreqs None) False (1 / 5)
       \<lparr>chords = [], notes' = [demo_h, demo_bad, demo_note]\<rparr> =
     schedule_measure (Some 120) (tuningBaseFreqs None) False (1 / 5)
       \<lparr>chords = [], notes' = [demo_h, demo_note]\<rparr> \<and>
   tone (Some (329.63 * 2)) (1 / 5 + 4 * (1 / 8))
     \<in> set (schedule_measure (Some 120) (tuningBaseFreqs None) False (1 / 5)
              \<lparr>chords = [], notes' = [demo_h, demo_bad, demo_note]\<rparr>)"
proof -
  have p: "parseInt (fret demo_bad) = None" by code_simp
  have q: "parseInt (fret demo_note) = Some 12" by code_simp
  have f: "note_frequency (tuningBaseFreqs None) (string demo_note) 12 = Some (329.63 * 2)"
    by (simp add: note_frequency_def tuningBaseFreqs_def TUNING_FREQS_def js_index_def demo_note_def)
  have g: "position demo_note * secondsPerPosition (Some 120) = 4 * (1 / 8)"
    by (simp add: demo_note_def secondsPerPosition_def secondsPerMeasure_def tempo_or_default_def)
  note th = malformed_fret_keeps_timing [OF p, where t = "Some 120" and freqs = "tuningBaseFreqs None"
        and measureStartTime = "1 / 5" and metro = False
        and m = "\<lparr>chords = [], notes' = []\<rparr>" and xs = "[demo_h]" and ys = "[demo_note]"
        and startTime = 0 and pre = "[]" and post = "[]" and msa = "[]" and msb = "[]"
        and sec = "\<lparr>title = [], measures = []\<rparr>"]
  from th [THEN conjunct2, THEN conjunct1]
  have same: "schedule_measure (Some 120) (tuningBaseFreqs None) False (1 / 5)
       \<lparr>chords = [], notes' = [demo_h, demo_bad, demo_note]\<rparr> =
     schedule_measure (Some 120) (tuningBaseFreqs None) False (1 / 5)
       \<lparr>chords = [], notes' = [demo_h, demo_note]\<rparr>"
    by simp
  from th [THEN conjunct2, THEN conjunct2, THEN conjunct1, rule_format, of demo_note 12] q f g
  have there: "tone (Some (329.63 * 2)) (1 / 5 + 4 * (1 / 8))
     \<in> set (schedule_measure (Some 120) (tuningBaseFreqs None) False (1 / 5)
              \<lparr>chords = [], notes' = [demo_h, demo_bad, demo_note]\<rparr>)"
    by simp
  show ?thesis using p same there by blast
qed

subsection \<open>Stopping\<close>

lemma mset_stop_oscillators:
  "mset (stop_oscillators handles graph) = mset graph - mset handles"
  unfolding stop_oscillators_def
  by (induction handles arbitrary: graph) simp_all

lemma stop_oscillators_all:
  "mset graph \<subseteq># mset handles \<Longrightarrow> stop_oscillators handles graph = []"
proof -
  assume "mset graph \<subseteq># mset handles"
  then have "mset (stop_oscillators handles graph) = {#}"
    by (simp add: mset_stop_oscillators Diff_eq_empty_iff_mset)
  then show ?thesis by simp
qed

lemma stop_oscillators_Nil [simp]: "stop_oscillators [] graph = graph"
  by (simp add: stop_oscillators_def)

lemma cancel_frame_idem: "cancel_frame h (cancel_frame h q) = cancel_frame h q"
  by (simp add: cancel_frame_def split: option.splits)

lemma cancel_frame_gone:
  "h \<noteq> 0 \<Longrightarrow> h \<notin> frame_id ` set (cancel_frame (Some h) q)"
  by (auto simp: cancel_frame_def)

lemma cancel_frame_all:
  assumes "\<forall>f \<in> set q. h = Some (frame_id f) \<and> frame_id f \<noteq> 0"
  shows "cancel_frame h q = []"
proof (cases q)
  case Nil
  then show ?thesis by (simp add: cancel_frame_def split: option.splits)
next
  case (Cons f fs)
  with assms have h: "h = Some (frame_id f)" "frame_id f \<noteq> 0" by simp_all
  have "\<forall>g \<in> set q. frame_id g = frame_id f" using assms h by auto
  then have "filter (\<lambda>g. frame_id g \<noteq> frame_id f) q = []" by (simp add: filter_empty_conv)
  with h show ?thesis by (simp add: cancel_frame_def)
qed

lemma stop_twice: "stopAllPlayback (stopAllPlayback s) = stopAllPlayback s"
  by (cases "audioRef s") (simp_all add: stopAllPlayback_def cancel_frame_idem)

lemma stop_fields:
  "\<not> isPlayingOriginal (stopAllPlayback s)" "\<not> isPlayingSynth (stopAllPlayback s)"
  "synthOscillators (stopAllPlayback s) = []" "synthTimeoutRefs (stopAllPlayback s) = []"
  "activeSectionIdx (stopAllPlayback s) = None" "activeMeasureIdx (stopAllPlayback s) = None"
  "activePosIdx (stopAllPlayback s) = None" "\<not> original_sounding (stopAllPlayback s)"
  "destination (stopAllPlayback s) = stop_oscillators (synthOscillators s) (destination s)"
  "pendingTimeouts (stopAllPlayback s) = filter (\<lambda>t. t \<notin> set (synthTimeoutRefs s)) (pendingTimeouts s)"
  "frameRequests (stopAllPlayback s) = cancel_frame (animationFrameRef s) (frameRequests s)"
  "animationFrameRef (stopAllPlayback s) = animationFrameRef s"
  "metronomeEnabled (stopAllPlayback s) = metronomeEnabled s"
  "console (stopAllPlayback s) = console s"
  by (simp_all add: stopAllPlayback_def original_sounding_def split: option.splits)

lemma stop_consistent:
  assumes "consistent s"
  shows "destination (stopAllPlayback s) = []" "pendingTimeouts (stopAllPlayback s) = []"
    "frameRequests (stopAllPlayback s) = []" "consistent (stopAllPlayback s)"
proof -
  show d: "destination (stopAllPlayback s) = []"
    using assms by (simp add: stop_fields consistent_def stop_oscillators_all)
  have "\<forall>t \<in> set (pendingTimeouts s). t \<in> set (synthTimeoutRefs s)"
    using assms by (auto simp: consistent_def)
  then show p: "pendingTimeouts (stopAllPlayback s) = []"
    by (simp add: stop_fields filter_empty_conv)
  have "\<forall>f \<in> set (frameRequests s). animationFrameRef s = Some (frame_id f) \<and> frame_id f \<noteq> 0"
    using assms by (simp add: consistent_def)
  then show f: "frameRequests (stopAllPlayback s) = []"
    by (simp add: stop_fields cancel_frame_all)
  show "consistent (stopAllPlayback s)"
    using d p f by (simp add: consistent_def stop_fields)
qed

text \<open>
  Claim C7: \<^const>\<open>stopAllPlayback\<close> is total and idempotent.  From every state it
  leaves both playing flags false and the recording silent, calls \<^verbatim>\<open>stop()\<close> on
  every oscillator handle and empties the list, clears every timer of the list, cancels
  the frame request of \<^verbatim>\<open>animationFrameRef\<close> and resets the cursor; in a state the
  component can reach nothing is left sounding, pending or registered.
\<close>

theorem stop_is_idempotent:
  "stopAllPlayback (stopAllPlayback s) = stopAllPlayback s \<and>
   \<not> isPlayingOriginal (stopAllPlayback s) \<and> \<not> isPlayingSynth (stopAllPlayback s) \<and>
   \<not> original_sounding (stopAllPlayback s) \<and>
   synthOscillators (stopAllPlayback s) = [] \<and>
   mset (destination (stopAllPlayback s)) = mset (destination s) - mset (synthOscillators s) \<and>
   synthTimeoutRefs (stopAllPlayback s) = [] \<and>
   (\<forall>t \<in> set (synthTimeoutRefs s). t \<notin> set (pendingTimeouts (stopAllPlayback s))) \<and>
   (\<forall>h. animationFrameRef s = Some h \<and> h \<noteq> 0 \<longrightarrow>
      h \<notin> frame_id ` set (frameRequests (stopAllPlayback s))) \<and>
   activeSectionIdx (stopAllPlayback s) = None \<and> activeMeasureIdx (stopAllPlayback s) = None \<and>
   activePosIdx (stopAllPlayback s) = None \<and>
   (consistent s \<longrightarrow>
      destination (stopAllPlayback s) = [] \<and> pendingTimeouts (stopAllPlayback s) = [] \<and>
      frameRequests (stopAllPlayback s) = [] \<and> consistent (stopAllPlayback s))"
  using stop_twice [of s] stop_consistent [of s] cancel_frame_gone
  by (auto simp: stop_fields mset_stop_oscillators)

subsection \<open>Reachable states\<close>

lemma toggle_no_source:
  assumes "audioRef s = None"
  shows "toggleOriginalPlayback s =
           (if isPlayingSynth s then stopAllPlayback s else s)
             \<lparr>console := console s @ [''Original audio source is missing or invalid.'']\<rparr>"
  using assms by (simp add: toggleOriginalPlayback_def stopAllPlayback_def Let_def)

lemma consistent_toggle:
  assumes "consistent s"
  shows "consistent (toggleOriginalPlayback s)"
proof (cases "isPlayingSynth s")
  case True
  then have no: "\<not> isPlayingOriginal s" using assms by (simp add: consistent_def)
  note st = stop_consistent[OF assms] stop_fields
  show ?thesis
  proof (cases "audioRef (stopAllPlayback s)")
    case None
    then show ?thesis using True st(4)
      by (simp add: toggleOriginalPlayback_def consistent_def original_sounding_def Let_def)
  next
    case (Some a)
    then show ?thesis using True no st(1-3) 
      by (simp add: toggleOriginalPlayback_def consistent_def original_sounding_def stop_fields Let_def)
  qed
next
  case False
  then show ?thesis using assms
    by (cases "audioRef s")
       (auto simp add: toggleOriginalPlayback_def consistent_def original_sounding_def Let_def)
qed

lemma consistent_request:
  assumes "frameRequests s = []"
    and "\<not> (isPlayingOriginal s \<and> isPlayingSynth s)" and "original_sounding s \<longrightarrow> isPlayingOriginal s"
    and "isPlayingSynth s" and "mset (destination s) \<subseteq># mset (synthOscillators s)"
    and "set (pendingTimeouts s) \<subseteq> set (synthTimeoutRefs s)"
  shows "consistent (requestAnimationFrame False s)"
  using assms by (simp add: consistent_def requestAnimationFrame_def original_sounding_def)

lemma consistent_playSynth:
  assumes "consistent s"
  shows "consistent (playSynth data ctxTime s)"
proof (cases "isPlayingSynth s")
  case True
  then have "\<not> isPlayingOriginal s" using assms by (simp add: consistent_def)
  with True show ?thesis using stop_consistent(4)[OF assms] by (simp add: playSynth_def)
next
  case False
  define s1 where "s1 = (if isPlayingOriginal s then stopAllPlayback s else s)"
  have c1: "consistent s1" using assms stop_consistent(4)[OF assms] by (simp add: s1_def)
  have idle: "\<not> isPlayingOriginal s1" "\<not> isPlayingSynth s1"
    using False by (simp_all add: s1_def stop_fields)
  then have quiet: "\<not> original_sounding s1" "frameRequests s1 = []" "synthOscillators s1 = []"
    "destination s1 = []"
    using c1 by (auto simp: consistent_def)
  have t: "set (pendingTimeouts s1) \<subseteq> set (synthTimeoutRefs s1)"
    using c1 by (simp add: consistent_def)
  show ?thesis
    using False idle quiet t
    by (simp add: playSynth_def s1_def [symmetric] Let_def)
       (rule consistent_request, simp_all add: original_sounding_def)
qed

lemma tick_stale: "updatePlaybackProgress data False s = Inr s"
  by (simp add: updatePlaybackProgress_def split: option.splits)

lemma animation_frame_stale:
  assumes "\<forall>f \<in> set (frameRequests s). \<not> seen_isPlayingSynth f"
  shows "animation_frame data s = s\<lparr>frameRequests := tl (frameRequests s)\<rparr>"
  using assms by (cases "frameRequests s") (simp_all add: animation_frame_def tick_stale)

lemma consistent_frame:
  assumes "consistent s"
  shows "consistent (animation_frame data s)"
proof -
  have "\<forall>f \<in> set (frameRequests s). \<not> seen_isPlayingSynth f"
    using assms by (simp add: consistent_def)
  from animation_frame_stale[OF this] assms show ?thesis
    by (cases "frameRequests s") (auto simp: consistent_def original_sounding_def)
qed

lemma consistent_step:
  assumes "consistent s"
  shows "consistent (step data s e)"
proof (cases e)
  case ClickOriginal
  then show ?thesis using consistent_toggle[OF assms] by simp
next
  case (ClickSynth c)
  then show ?thesis using consistent_playSynth[OF assms] by simp
next
  case AnimationFrame
  then show ?thesis using consistent_frame[OF assms] by simp
next
  case ClickMetronome
  then show ?thesis using assms by (simp add: consistent_def original_sounding_def)
next
  case AudioEnded
  then show ?thesis using assms
    by (simp add: consistent_def original_sounding_def audio_stopped_def split: option.splits)
next
  case AudioError
  then show ?thesis using assms
    by (simp add: consistent_def original_sounding_def audio_stopped_def split: option.splits)
next
  case PlayRejected
  then show ?thesis using assms
    by (simp add: consistent_def original_sounding_def audio_stopped_def split: option.splits)
next
  case (TimePasses dt)
  then show ?thesis using assms
    by (auto simp add: consistent_def original_sounding_def time_passes_def split: option.splits)
next
  case (UrlChanged url)
  then show ?thesis using assms
    by (simp add: consistent_def original_sounding_def originalAudioEffect_def split: option.splits)
qed

lemma consistent_initial: "consistent initial"
  by (simp add: consistent_def initial_def original_sounding_def)

lemma consistent_foldl: "consistent s \<Longrightarrow> consistent (foldl (step data) s evs)"
  by (induction evs arbitrary: s) (simp_all add: consistent_step)

lemma consistent_run: "consistent (run data evs)"
  by (simp add: run_def consistent_foldl consistent_initial)

subsection \<open>Original playback without a source\<close>

lemma playSynth_start_fields:
  assumes "\<not> isPlayingSynth s"
  shows "isPlayingSynth (playSynth data c s)" "audioRef (playSynth data c s) =
      audioRef (if isPlayingOriginal s then stopAllPlayback s else s)"
    "synthContextRef (playSynth data c s) = Some c" "synthStartTimeRef (playSynth data c s) = c + 0.2"
    "map seen_isPlayingSynth (frameRequests (playSynth data c s)) =
       map seen_isPlayingSynth (frameRequests (if isPlayingOriginal s then stopAllPlayback s else s)) @ [False]"
    "isPlayingOriginal (playSynth data c s) = False"
    "console (playSynth data c s) = console s"
  using assms by (simp_all add: playSynth_def Let_def requestAnimationFrame_def stop_fields)

text \<open>
  Claim C8 as stated fails while the synthesizer plays: the handler tears the synthesized
  session down before it looks for the audio element.
\<close>

theorem original_without_source_counterexample:
  "audioRef (playSynth demo_tab 0 initial) = None \<and>
   isPlayingSynth (playSynth demo_tab 0 initial) \<and>
   frameRequests (playSynth demo_tab 0 initial) \<noteq> [] \<and>
   \<not> isPlayingSynth (toggleOriginalPlayback (playSynth demo_tab 0 initial)) \<and>
   frameRequests (toggleOriginalPlayback (playSynth demo_tab 0 initial)) = []"
proof -
  have i: "\<not> isPlayingSynth initial" "\<not> isPlayingOriginal initial" "audioRef initial = None"
    by (simp_all add: initial_def)
  have a: "audioRef (playSynth demo_tab 0 initial) = None"
    and b: "isPlayingSynth (playSynth demo_tab 0 initial)"
    using playSynth_start_fields(1,2)[OF i(1)] i by simp_all
  have c: "frameRequests (playSynth demo_tab 0 initial) \<noteq> []"
    using playSynth_start_fields(5)[OF i(1), of demo_tab 0] by auto
  have t: "toggleOriginalPlayback (playSynth demo_tab 0 initial) =
      (stopAllPlayback (playSynth demo_tab 0 initial))
        \<lparr>console := console (playSynth demo_tab 0 initial) @
                     [''Original audio source is missing or invalid.'']\<rparr>"
    using toggle_no_source[OF a] b by simp
  have "consistent (playSynth demo_tab 0 initial)"
    by (rule consistent_playSynth) (rule consistent_initial)
  from stop_consistent(3)[OF this] show ?thesis using a b c t by (simp add: stop_fields)
qed

text \<open>
  Claim C8, amended: without an audio element \<^const>\<open>toggleOriginalPlayback\<close> never
  starts the recording and logs one warning; when the synthesizer is not playing the
  state is otherwise unchanged, and when it is playing the state is the one
  \<^const>\<open>stopAllPlayback\<close> leaves.
\<close>

theorem original_without_source:
  assumes "audioRef s = None"
  shows "toggleOriginalPlayback s =
           (if isPlayingSynth s then stopAllPlayback s else s)
             \<lparr>console := console s @ [''Original audio source is missing or invalid.'']\<rparr> \<and>
         audioRef (toggleOriginalPlayback s) = None \<and>
         \<not> original_sounding (toggleOriginalPlayback s) \<and>
         isPlayingOriginal (toggleOriginalPlayback s) = (isPlayingOriginal s \<and> \<not> isPlayingSynth s) \<and>
         (\<not> isPlayingSynth s \<longrightarrow>
            toggleOriginalPlayback s =
              s\<lparr>console := console s @ [''Original audio source is missing or invalid.'']\<rparr>)"
  using toggle_no_source[OF assms] assms
  by (simp add: stopAllPlayback_def original_sounding_def)

theorem original_without_source_witness:
  "audioRef initial = None \<and>
   toggleOriginalPlayback initial =
     initial\<lparr>console := [''Original audio source is missing or invalid.'']\<rparr> \<and>
   \<not> isPlayingOriginal (toggleOriginalPlayback initial)"
proof -
  have a: "audioRef initial = None" by (simp add: initial_def)
  show ?thesis using original_without_source [OF a] a by (simp add: initial_def)
qed

subsection \<open>Mutual exclusion\<close>

lemma playSynth_after_stop:
  assumes "isPlayingOriginal s" and "\<not> isPlayingSynth s"
  shows "playSynth data c s = playSynth data c (stopAllPlayback s)"
  using assms by (simp add: playSynth_def stop_fields Let_def)

lemma toggle_after_stop:
  assumes "isPlayingSynth s" and "\<not> isPlayingOriginal s"
  shows "toggleOriginalPlayback s = toggleOriginalPlayback (stopAllPlayback s)"
  using assms by (simp add: toggleOriginalPlayback_def stop_fields stop_twice Let_def split: option.splits)

lemma toggle_from_idle:
  assumes "\<not> isPlayingSynth s" and "\<not> isPlayingOriginal s"
  shows "synthOscillators (toggleOriginalPlayback s) = synthOscillators s"
    "destination (toggleOriginalPlayback s) = destination s"
    "synthTimeoutRefs (toggleOriginalPlayback s) = synthTimeoutRefs s"
    "pendingTimeouts (toggleOriginalPlayback s) = pendingTimeouts s"
    "frameRequests (toggleOriginalPlayback s) = frameRequests s"
    "\<not> isPlayingSynth (toggleOriginalPlayback s)"
    "audioRef s \<noteq> None \<longrightarrow>
       isPlayingOriginal (toggleOriginalPlayback s) \<and> original_sounding (toggleOriginalPlayback s)"
  using assms
  by (auto simp add: toggleOriginalPlayback_def Let_def original_sounding_def split: option.splits)

lemma exclusive_sound:
  assumes "consistent s"
  shows "\<not> (original_sounding s \<and> synth_sounding s)"
proof
  assume both: "original_sounding s \<and> synth_sounding s"
  then have "destination s \<noteq> []" by (simp add: synth_sounding_def)
  moreover have "mset (destination s) \<subseteq># mset (synthOscillators s)"
    using assms by (simp add: consistent_def)
  ultimately have "synthOscillators s \<noteq> []" by auto
  then have "isPlayingSynth s" using assms by (auto simp: consistent_def)
  moreover have "isPlayingOriginal s" using both assms by (simp add: consistent_def)
  ultimately show False using assms by (simp add: consistent_def)
qed

text \<open>
  Claim C2: in every state the component reaches, at most one of the two flags is set and
  at most one of the recording and the synthesizer sounds.  Starting the synthesizer while
  the recording plays is starting it from the state \<^const>\<open>stopAllPlayback\<close> leaves, where
  the recording is silent; starting the recording while the synthesizer plays is starting
  it from that state too, with no oscillator, timer or frame request left.
\<close>

theorem mutual_exclusion:
  "\<not> (isPlayingOriginal (run data evs) \<and> isPlayingSynth (run data evs)) \<and>
   \<not> (original_sounding (run data evs) \<and> synth_sounding (run data evs)) \<and>
   (isPlayingOriginal (run data evs) \<longrightarrow>
      playSynth data ctxTime (run data evs) =
        playSynth data ctxTime (stopAllPlayback (run data evs)) \<and>
      \<not> original_sounding (stopAllPlayback (run data evs)) \<and>
      isPlayingSynth (playSynth data ctxTime (run data evs)) \<and>
      \<not> isPlayingOriginal (playSynth data ctxTime (run data evs)) \<and>
      \<not> original_sounding (playSynth data ctxTime (run data evs))) \<and>
   (isPlayingSynth (run data evs) \<longrightarrow>
      toggleOriginalPlayback (run data evs) =
        toggleOriginalPlayback (stopAllPlayback (run data evs)) \<and>
      \<not> isPlayingSynth (toggleOriginalPlayback (run data evs)) \<and>
      synthOscillators (toggleOriginalPlayback (run data evs)) = [] \<and>
      destination (toggleOriginalPlayback (run data evs)) = [] \<and>
      \<not> synth_sounding (toggleOriginalPlayback (run data evs)) \<and>
      synthTimeoutRefs (toggleOriginalPlayback (run data evs)) = [] \<and>
      pendingTimeouts (toggleOriginalPlayback (run data evs)) = [] \<and>
      frameRequests (toggleOriginalPlayback (run data evs)) = [] \<and>
      (audioRef (run data evs) \<noteq> None \<longrightarrow>
         isPlayingOriginal (toggleOriginalPlayback (run data evs)) \<and>
         original_sounding (toggleOriginalPlayback (run data evs))))"
proof -
  define s where "s = run data evs"
  have c: "consistent s" by (simp add: s_def consistent_run)
  have flags: "\<not> (isPlayingOriginal s \<and> isPlayingSynth s)" using c by (simp add: consistent_def)
  have sound: "\<not> (original_sounding s \<and> synth_sounding s)" by (rule exclusive_sound[OF c])
  have synth: "playSynth data ctxTime s = playSynth data ctxTime (stopAllPlayback s) \<and>
      \<not> original_sounding (stopAllPlayback s) \<and>
      isPlayingSynth (playSynth data ctxTime s) \<and>
      \<not> isPlayingOriginal (playSynth data ctxTime s) \<and>
      \<not> original_sounding (playSynth data ctxTime s)" if o: "isPlayingOriginal s"
  proof -
    have n: "\<not> isPlayingSynth s" using o flags by simp
    have q: "\<not> original_sounding (playSynth data ctxTime s)"
      using playSynth_start_fields(2)[OF n, of data ctxTime] o stop_fields(8)[of s]
      by (simp add: original_sounding_def)
    show ?thesis
      using playSynth_after_stop[OF o n] playSynth_start_fields(1,6)[OF n] q
      by (simp add: stop_fields)
  qed
  have orig: "toggleOriginalPlayback s = toggleOriginalPlayback (stopAllPlayback s) \<and>
      \<not> isPlayingSynth (toggleOriginalPlayback s) \<and>
      synthOscillators (toggleOriginalPlayback s) = [] \<and>
      destination (toggleOriginalPlayback s) = [] \<and>
      \<not> synth_sounding (toggleOriginalPlayback s) \<and>
      synthTimeoutRefs (toggleOriginalPlayback s) = [] \<and>
      pendingTimeouts (toggleOriginalPlayback s) = [] \<and>
      frameRequests (toggleOriginalPlayback s) = [] \<and>
      (audioRef s \<noteq> None \<longrightarrow>
         isPlayingOriginal (toggleOriginalPlayback s) \<and>
         original_sounding (toggleOriginalPlayback s))" if p: "isPlayingSynth s"
  proof -
    have n: "\<not> isPlayingOriginal s" using p flags by simp
    have e: "toggleOriginalPlayback s = toggleOriginalPlayback (stopAllPlayback s)"
      by (rule toggle_after_stop[OF p n])
    have a: "audioRef s \<noteq> None \<longrightarrow> audioRef (stopAllPlayback s) \<noteq> None"
      by (simp add: stopAllPlayback_def)
    show ?thesis
      using toggle_from_idle[of "stopAllPlayback s"] stop_consistent[OF c] a
      by (simp add: e stop_fields synth_sounding_def)
  qed
  show ?thesis using flags sound synth orig unfolding s_def by blast
qed

text \<open>The frame callback registered by a handler never sees \<open>isPlayingSynth\<close> true.\<close>

lemma cursor_step:
  assumes "consistent s" and "activeSectionIdx s = None \<and> activeMeasureIdx s = None \<and> activePosIdx s = None"
  shows "activeSectionIdx (step data s e) = None \<and> activeMeasureIdx (step data s e) = None \<and>
         activePosIdx (step data s e) = None"
proof (cases e)
  case AnimationFrame
  have "\<forall>f \<in> set (frameRequests s). \<not> seen_isPlayingSynth f"
    using assms(1) by (simp add: consistent_def)
  from animation_frame_stale[OF this] AnimationFrame assms(2) show ?thesis by simp
next
  case (ClickSynth c)
  then show ?thesis using assms(2)
    by (simp add: playSynth_def Let_def requestAnimationFrame_def stop_fields)
next
  case ClickOriginal
  then show ?thesis using assms(2)
    by (simp add: toggleOriginalPlayback_def Let_def stop_fields split: option.splits)
qed (use assms(2) in \<open>simp_all add: audio_stopped_def time_passes_def originalAudioEffect_def\<close>)

lemma cursor_foldl:
  assumes "consistent s" and "activeSectionIdx s = None \<and> activeMeasureIdx s = None \<and> activePosIdx s = None"
  shows "activeSectionIdx (foldl (step data) s evs) = None \<and>
         activeMeasureIdx (foldl (step data) s evs) = None \<and>
         activePosIdx (foldl (step data) s evs) = None"
  using assms
proof (induction evs arbitrary: s)
  case Nil
  then show ?case by simp
next
  case (Cons e evs)
  show ?case
    using Cons.IH[OF consistent_step[OF Cons.prems(1)] cursor_step[OF Cons.prems]] by simp
qed

lemma cursor_never_moves:
  "activeSectionIdx (run data evs) = None \<and> activeMeasureIdx (run data evs) = None \<and>
   activePosIdx (run data evs) = None"
  unfolding run_def
  by (rule cursor_foldl) (simp_all add: consistent_initial, simp add: initial_def)

lemma stale_queue: "filter seen_isPlayingSynth (frameRequests (run data evs)) = []"
  using consistent_run[of data evs] by (simp add: consistent_def filter_empty_conv)

theorem stop_is_idempotent_witness:
  "consistent (playSynth demo_tab 0 initial) \<and>
   isPlayingSynth (playSynth demo_tab 0 initial) \<and>
   frameRequests (playSynth demo_tab 0 initial) \<noteq> [] \<and>
   \<not> isPlayingSynth (stopAllPlayback (playSynth demo_tab 0 initial)) \<and>
   destination (stopAllPlayback (playSynth demo_tab 0 initial)) = [] \<and>
   frameRequests (stopAllPlayback (playSynth demo_tab 0 initial)) = [] \<and>
   stopAllPlayback (stopAllPlayback initial) = stopAllPlayback initial \<and>
   \<not> isPlayingSynth (stopAllPlayback initial) \<and> \<not> isPlayingOriginal (stopAllPlayback initial)"
proof -
  have c: "consistent (playSynth demo_tab 0 initial)"
    by (rule consistent_playSynth) (rule consistent_initial)
  have i: "\<not> isPlayingSynth initial" by (simp add: initial_def)
  have f: "frameRequests (playSynth demo_tab 0 initial) \<noteq> []"
    using playSynth_start_fields(5)[OF i, of demo_tab 0] by auto
  show ?thesis
    using stop_is_idempotent [of "playSynth demo_tab 0 initial"] stop_is_idempotent [of initial]
      c f playSynth_start_fields(1)[OF i]
    by simp
qed

theorem mutual_exclusion_witness:
  "isPlayingOriginal (run demo_tab [UrlChanged (Some ''blob:recording''), ClickOriginal]) \<and>
   original_sounding (run demo_tab [UrlChanged (Some ''blob:recording''), ClickOriginal]) \<and>
   isPlayingSynth
     (playSynth demo_tab 0 (run demo_tab [UrlChanged (Some ''blob:recording''), ClickOriginal])) \<and>
   \<not> original_sounding
     (playSynth demo_tab 0 (run demo_tab [UrlChanged (Some ''blob:recording''), ClickOriginal])) \<and>
   isPlayingSynth (run demo_tab [UrlChanged (Some ''blob:recording''), ClickSynth 0]) \<and>
   audioRef (run demo_tab [UrlChanged (Some ''blob:recording''), ClickSynth 0]) \<noteq> None \<and>
   original_sounding
     (toggleOriginalPlayback (run demo_tab [UrlChanged (Some ''blob:recording''), ClickSynth 0])) \<and>
   \<not> synth_sounding
     (toggleOriginalPlayback (run demo_tab [UrlChanged (Some ''blob:recording''), ClickSynth 0]))"
proof -
  define mounted where "mounted = originalAudioEffect (Some ''blob:recording'') initial"
  have m: "\<not> isPlayingSynth mounted" "\<not> isPlayingOriginal mounted"
    "audioRef mounted = Some \<lparr>playing = False, currentTime = 0\<rparr>"
    by (simp_all add: mounted_def originalAudioEffect_def initial_def)
  have r1: "run demo_tab [UrlChanged (Some ''blob:recording''), ClickOriginal] =
      toggleOriginalPlayback mounted"
    and r2: "run demo_tab [UrlChanged (Some ''blob:recording''), ClickSynth 0] =
      playSynth demo_tab 0 mounted"
    by (simp_all add: run_def mounted_def)
  have o: "isPlayingOriginal (toggleOriginalPlayback mounted)"
    "original_sounding (toggleOriginalPlayback mounted)"
    using m by (simp_all add: toggleOriginalPlayback_def original_sounding_def)
  have p: "isPlayingSynth (playSynth demo_tab 0 mounted)"
    "audioRef (playSynth demo_tab 0 mounted) \<noteq> None"
    using playSynth_start_fields(1,2)[OF m(1), of demo_tab 0] m by simp_all
  from mutual_exclusion [of demo_tab "[UrlChanged (Some ''blob:recording''), ClickOriginal]" 0,
      unfolded r1] o
  have a: "isPlayingSynth (playSynth demo_tab 0 (toggleOriginalPlayback mounted)) \<and>
      \<not> original_sounding (playSynth demo_tab 0 (toggleOriginalPlayback mounted))"
    by blast
  from mutual_exclusion [of demo_tab "[UrlChanged (Some ''blob:recording''), ClickSynth 0]" 0,
      unfolded r2] p
  have b: "original_sounding (toggleOriginalPlayback (playSynth demo_tab 0 mounted)) \<and>
      \<not> synth_sounding (toggleOriginalPlayback (playSynth demo_tab 0 mounted))"
    by blast
  show ?thesis unfolding r1 r2 using o p a b by blast
qed

subsection \<open>The flattened measure index\<close>

lemma flat_rows_simps:
  "flat_rows k [] = []"
  "flat_rows k (sec # secs) = flat_row k sec @ flat_rows (Suc k) secs"
  by (simp_all add: flat_rows_def)

lemma length_flat_row: "length (flat_row k sec) = length (measures sec)"
  by (simp add: flat_row_def)

lemma flat_row_nth:
  assumes "i < length (measures sec)"
  shows "flat_row k sec ! i =
           \<lparr>chords = chords (measures sec ! i), notes' = notes' (measures sec ! i),
            sectionIdx = k, measureIdx = i, absoluteIdx = 0\<rparr>"
  using assms by (simp add: flat_row_def nth_enumerate_eq)

lemma length_flat_rows:
  "length (flat_rows k secs) = sum_list (map (\<lambda>sec. length (measures sec)) secs)"
  by (induction secs arbitrary: k) (simp_all add: flat_rows_simps length_flat_row)

lemma flat_rows_nth:
  assumes "i < length (flat_rows k secs)"
  shows "k \<le> sectionIdx (flat_rows k secs ! i) \<and>
         sectionIdx (flat_rows k secs ! i) - k < length secs \<and>
         measureIdx (flat_rows k secs ! i)
           < length (measures (secs ! (sectionIdx (flat_rows k secs ! i) - k))) \<and>
         chords (flat_rows k secs ! i) =
           chords (measures (secs ! (sectionIdx (flat_rows k secs ! i) - k)) !
                     measureIdx (flat_rows k secs ! i)) \<and>
         notes' (flat_rows k secs ! i) =
           notes' (measures (secs ! (sectionIdx (flat_rows k secs ! i) - k)) !
                     measureIdx (flat_rows k secs ! i)) \<and>
         i = sum_list (map (\<lambda>sec. length (measures sec))
                        (take (sectionIdx (flat_rows k secs ! i) - k) secs))
             + measureIdx (flat_rows k secs ! i)"
  using assms
proof (induction secs arbitrary: k i)
  case Nil
  then show ?case by (simp add: flat_rows_simps)
next
  case (Cons sec secs)
  show ?case
  proof (cases "i < length (measures sec)")
    case True
    then have "flat_rows k (sec # secs) ! i = flat_row k sec ! i"
      by (simp add: flat_rows_simps nth_append length_flat_row)
    with True show ?thesis by (simp add: flat_row_nth)
  next
    case False
    define j where "j = i - length (measures sec)"
    have e: "flat_rows k (sec # secs) ! i = flat_rows (Suc k) secs ! j"
      using False by (simp add: flat_rows_simps nth_append length_flat_row j_def)
    have "j < length (flat_rows (Suc k) secs)"
      using Cons.prems False by (simp add: flat_rows_simps length_flat_row j_def)
    from Cons.IH[OF this] have ih:
      "Suc k \<le> sectionIdx (flat_rows (Suc k) secs ! j)"
      "sectionIdx (flat_rows (Suc k) secs ! j) - Suc k < length secs"
      "measureIdx (flat_rows (Suc k) secs ! j)
           < length (measures (secs ! (sectionIdx (flat_rows (Suc k) secs ! j) - Suc k)))"
      "chords (flat_rows (Suc k) secs ! j) =
           chords (measures (secs ! (sectionIdx (flat_rows (Suc k) secs ! j) - Suc k)) !
                     measureIdx (flat_rows (Suc k) secs ! j))"
      "notes' (flat_rows (Suc k) secs ! j) =
           notes' (measures (secs ! (sectionIdx (flat_rows (Suc k) secs ! j) - Suc k)) !
                     measureIdx (flat_rows (Suc k) secs ! j))"
      "j = sum_list (map (\<lambda>sec. length (measures sec))
                        (take (sectionIdx (flat_rows (Suc k) secs ! j) - Suc k) secs))
             + measureIdx (flat_rows (Suc k) secs ! j)"
      by simp_all
    define q where "q = sectionIdx (flat_rows (Suc k) secs ! j)"
    have q: "q - k = Suc (q - Suc k)" "k \<le> q" using ih(1) by (simp_all add: q_def)
    have i: "i = length (measures sec) + j" using False by (simp add: j_def)
    have "k \<le> q \<and> q - k < length (sec # secs) \<and>
         measureIdx (flat_rows (Suc k) secs ! j) < length (measures ((sec # secs) ! (q - k))) \<and>
         chords (flat_rows (Suc k) secs ! j) =
           chords (measures ((sec # secs) ! (q - k)) ! measureIdx (flat_rows (Suc k) secs ! j)) \<and>
         notes' (flat_rows (Suc k) secs ! j) =
           notes' (measures ((sec # secs) ! (q - k)) ! measureIdx (flat_rows (Suc k) secs ! j)) \<and>
         i = sum_list (map (\<lambda>sec. length (measures sec)) (take (q - k) (sec # secs)))
             + measureIdx (flat_rows (Suc k) secs ! j)"
      using ih(2-6) i unfolding q_def[symmetric] q(1) by (simp add: q(2))
    then show ?thesis unfolding e q_def[symmetric] .
  qed
qed

lemma flatMeasures_rows:
  "flatMeasures data =
     map (\<lambda>(i, m). m\<lparr>absoluteIdx := i\<rparr>) (enumerate 0 (flat_rows 0 (sections data)))"
  by (simp add: flatMeasures_def flat_rows_def)

lemma length_flatMeasures:
  "length (flatMeasures data) = sum_list (map (\<lambda>sec. length (measures sec)) (sections data))"
  by (simp add: flatMeasures_rows length_flat_rows)

lemma flatMeasures_nth:
  assumes "i < length (flatMeasures data)"
  shows "absoluteIdx (flatMeasures data ! i) = i \<and>
         sectionIdx (flatMeasures data ! i) < length (sections data) \<and>
         measureIdx (flatMeasures data ! i)
           < length (measures (sections data ! sectionIdx (flatMeasures data ! i))) \<and>
         chords (flatMeasures data ! i) =
           chords (measures (sections data ! sectionIdx (flatMeasures data ! i)) !
                     measureIdx (flatMeasures data ! i)) \<and>
         notes' (flatMeasures data ! i) =
           notes' (measures (sections data ! sectionIdx (flatMeasures data ! i)) !
                     measureIdx (flatMeasures data ! i)) \<and>
         i = sum_list (map (\<lambda>sec. length (measures sec))
                        (take (sectionIdx (flatMeasures data ! i)) (sections data)))
             + measureIdx (flatMeasures data ! i)"
proof -
  have l: "i < length (flat_rows 0 (sections data))"
    using assms by (simp add: flatMeasures_rows)
  then have n: "flatMeasures data ! i = (flat_rows 0 (sections data) ! i)\<lparr>absoluteIdx := i\<rparr>"
    by (simp add: flatMeasures_rows nth_enumerate_eq)
  show ?thesis using flat_rows_nth[OF l] by (simp add: n)
qed

subsection \<open>The playhead\<close>

lemma floor_sixteenth: "\<lfloor>real_of_int tp / 16\<rfloor> = tp div 16"
  using floor_divide_of_int_eq [of tp 16] by simp

lemma js_rem_nonneg: "0 \<le> a \<Longrightarrow> js_rem a 16 = a mod 16"
  by (cases "a = 0") (simp_all add: js_rem_def)

lemma request_fields:
  "activeSectionIdx (requestAnimationFrame seen s) = activeSectionIdx s"
  "activeMeasureIdx (requestAnimationFrame seen s) = activeMeasureIdx s"
  "activePosIdx (requestAnimationFrame seen s) = activePosIdx s"
  "isPlayingSynth (requestAnimationFrame seen s) = isPlayingSynth s"
  "frameRequests (requestAnimationFrame seen s) =
     frameRequests s @ [\<lparr>frame_id = frameCounter s + 1, seen_isPlayingSynth = seen\<rparr>]"
  "animationFrameRef (requestAnimationFrame seen s) = Some (frameCounter s + 1)"
  by (simp_all add: requestAnimationFrame_def)

lemma tick_guard: "synthContextRef s = None \<or> \<not> seen \<Longrightarrow> updatePlaybackProgress data seen s = Inr s"
  by (auto simp: updatePlaybackProgress_def split: option.splits)

lemma tick_not_started:
  assumes "synthContextRef s = Some now" and "seen" and "now - synthStartTimeRef s < 0"
  shows "updatePlaybackProgress data seen s = Inr (requestAnimationFrame seen s)"
  using assms by (simp add: updatePlaybackProgress_def)

lemma tick_running:
  assumes "synthContextRef s = Some now" and "seen" and "0 \<le> now - synthStartTimeRef s"
  shows "updatePlaybackProgress data seen s =
     (let totalPositions = \<lfloor>(now - synthStartTimeRef s) / secondsPerPosition (tempo data)\<rfloor>;
          absoluteMeasure = totalPositions div 16
      in if absoluteMeasure < int (length (flatMeasures data)) then
           (if absoluteMeasure < 0 then Inl TypeError
            else Inr (requestAnimationFrame seen
                       (s\<lparr>activeSectionIdx := Some (sectionIdx (flatMeasures data ! nat absoluteMeasure)),
                          activeMeasureIdx := Some (measureIdx (flatMeasures data ! nat absoluteMeasure)),
                          activePosIdx := Some (js_rem totalPositions 16)\<rparr>)))
         else Inr (stopAllPlayback s))"
  using assms by (simp add: updatePlaybackProgress_def Let_def floor_sixteenth)

text \<open>
  What one run of the frame callback computes.  It does nothing when there is no audio
  context or when its render had \<open>isPlayingSynth\<close> false.  Otherwise, with
  \<open>elapsed = now - synthStartTimeRef\<close>: for a negative \<open>elapsed\<close> the cursor is
  unchanged and the callback registers itself again; for \<open>elapsed\<close> from 0 on, with
  \<open>totalPositions = \<lfloor>elapsed / secondsPerPosition\<rfloor>\<close>,
  \<open>absoluteMeasure = totalPositions div 16\<close> and
  \<open>positionInMeasure = totalPositions mod 16\<close>, an \<open>absoluteMeasure\<close> inside
  \<^const>\<open>flatMeasures\<close> sets the cursor to the section index and measure index of that
  entry (the entry of that measure of that section, numbered \<open>absoluteMeasure\<close>) and to
  \<open>positionInMeasure\<close>, and registers the callback again; an \<open>absoluteMeasure\<close> past
  the end stops all playback and resets the cursor.
\<close>

lemma tick_computation:
  "(synthContextRef s = None \<or> \<not> seen \<longrightarrow> updatePlaybackProgress data seen s = Inr s) \<and>
   (\<forall>now. synthContextRef s = Some now \<and> seen \<longrightarrow>
      (now - synthStartTimeRef s < 0 \<longrightarrow>
         (\<exists>s'. updatePlaybackProgress data seen s = Inr s' \<and>
               activeSectionIdx s' = activeSectionIdx s \<and>
               activeMeasureIdx s' = activeMeasureIdx s \<and>
               activePosIdx s' = activePosIdx s \<and>
               isPlayingSynth s' = isPlayingSynth s \<and>
               frameRequests s' =
                 frameRequests s @ [\<lparr>frame_id = frameCounter s + 1, seen_isPlayingSynth = seen\<rparr>])) \<and>
      (0 \<le> now - synthStartTimeRef s \<longrightarrow>
         (let totalPositions = \<lfloor>(now - synthStartTimeRef s) / secondsPerPosition (tempo data)\<rfloor>;
              absoluteMeasure = totalPositions div 16;
              positionInMeasure = totalPositions mod 16
          in (0 \<le> absoluteMeasure \<and> absoluteMeasure < int (length (flatMeasures data)) \<longrightarrow>
                (\<exists>s'. updatePlaybackProgress data seen s = Inr s' \<and>
                      activeSectionIdx s' = Some (sectionIdx (flatMeasures data ! nat absoluteMeasure)) \<and>
                      activeMeasureIdx s' = Some (measureIdx (flatMeasures data ! nat absoluteMeasure)) \<and>
                      activePosIdx s' = Some positionInMeasure \<and>
                      frameRequests s' =
                        frameRequests s @
                          [\<lparr>frame_id = frameCounter s + 1, seen_isPlayingSynth = seen\<rparr>]) \<and>
                absoluteIdx (flatMeasures data ! nat absoluteMeasure) = nat absoluteMeasure \<and>
                sectionIdx (flatMeasures data ! nat absoluteMeasure) < length (sections data) \<and>
                measureIdx (flatMeasures data ! nat absoluteMeasure)
                  < length (measures (sections data !
                                       sectionIdx (flatMeasures data ! nat absoluteMeasure))) \<and>
                nat absoluteMeasure =
                  sum_list (map (\<lambda>sec. length (measures sec))
                             (take (sectionIdx (flatMeasures data ! nat absoluteMeasure))
                                   (sections data)))
                  + measureIdx (flatMeasures data ! nat absoluteMeasure)) \<and>
             (int (length (flatMeasures data)) \<le> absoluteMeasure \<longrightarrow>
                updatePlaybackProgress data seen s = Inr (stopAllPlayback s) \<and>
                \<not> isPlayingSynth (stopAllPlayback s) \<and>
                synthOscillators (stopAllPlayback s) = [] \<and>
                activeSectionIdx (stopAllPlayback s) = None \<and>
                activeMeasureIdx (stopAllPlayback s) = None \<and>
                activePosIdx (stopAllPlayback s) = None))))"
proof (intro conjI allI impI)
  assume "synthContextRef s = None \<or> \<not> seen"
  then show "updatePlaybackProgress data seen s = Inr s" by (rule tick_guard)
next
  fix now
  assume g: "synthContextRef s = Some now \<and> seen" and e: "now - synthStartTimeRef s < 0"
  then show "\<exists>s'. updatePlaybackProgress data seen s = Inr s' \<and>
               activeSectionIdx s' = activeSectionIdx s \<and>
               activeMeasureIdx s' = activeMeasureIdx s \<and>
               activePosIdx s' = activePosIdx s \<and>
               isPlayingSynth s' = isPlayingSynth s \<and>
               frameRequests s' =
                 frameRequests s @ [\<lparr>frame_id = frameCounter s + 1, seen_isPlayingSynth = seen\<rparr>]"
    using tick_not_started[of s now seen data] by (simp add: request_fields)
next
  fix now
  assume g: "synthContextRef s = Some now \<and> seen" and e: "0 \<le> now - synthStartTimeRef s"
  define tp where "tp = \<lfloor>(now - synthStartTimeRef s) / secondsPerPosition (tempo data)\<rfloor>"
  have run: "updatePlaybackProgress data seen s =
     (if tp div 16 < int (length (flatMeasures data)) then
           (if tp div 16 < 0 then Inl TypeError
            else Inr (requestAnimationFrame seen
                       (s\<lparr>activeSectionIdx := Some (sectionIdx (flatMeasures data ! nat (tp div 16))),
                          activeMeasureIdx := Some (measureIdx (flatMeasures data ! nat (tp div 16))),
                          activePosIdx := Some (js_rem tp 16)\<rparr>)))
         else Inr (stopAllPlayback s))"
    using tick_running[of s now seen data] g e by (simp add: Let_def tp_def)
  have inside: "(\<exists>s'. updatePlaybackProgress data seen s = Inr s' \<and>
                      activeSectionIdx s' = Some (sectionIdx (flatMeasures data ! nat (tp div 16))) \<and>
                      activeMeasureIdx s' = Some (measureIdx (flatMeasures data ! nat (tp div 16))) \<and>
                      activePosIdx s' = Some (tp mod 16) \<and>
                      frameRequests s' =
                        frameRequests s @
                          [\<lparr>frame_id = frameCounter s + 1, seen_isPlayingSynth = seen\<rparr>]) \<and>
                absoluteIdx (flatMeasures data ! nat (tp div 16)) = nat (tp div 16) \<and>
                sectionIdx (flatMeasures data ! nat (tp div 16)) < length (sections data) \<and>
                measureIdx (flatMeasures data ! nat (tp div 16))
                  < length (measures (sections data !
                                       sectionIdx (flatMeasures data ! nat (tp div 16)))) \<and>
                nat (tp div 16) =
                  sum_list (map (\<lambda>sec. length (measures sec))
                             (take (sectionIdx (flatMeasures data ! nat (tp div 16)))
                                   (sections data)))
                  + measureIdx (flatMeasures data ! nat (tp div 16))"
    if r: "0 \<le> tp div 16 \<and> tp div 16 < int (length (flatMeasures data))"
  proof -
    have "0 \<le> tp" using r by (simp add: pos_imp_zdiv_nonneg_iff)
    then have pos: "js_rem tp 16 = tp mod 16" by (rule js_rem_nonneg)
    have "nat (tp div 16) < length (flatMeasures data)" using r by linarith
    from flatMeasures_nth[OF this] show ?thesis
      using r by (simp add: run pos request_fields)
  qed
  have over: "updatePlaybackProgress data seen s = Inr (stopAllPlayback s) \<and>
                \<not> isPlayingSynth (stopAllPlayback s) \<and>
                synthOscillators (stopAllPlayback s) = [] \<and>
                activeSectionIdx (stopAllPlayback s) = None \<and>
                activeMeasureIdx (stopAllPlayback s) = None \<and>
                activePosIdx (stopAllPlayback s) = None"
    if "int (length (flatMeasures data)) \<le> tp div 16"
    using that by (simp add: run stop_fields)
  show "(let totalPositions = \<lfloor>(now - synthStartTimeRef s) / secondsPerPosition (tempo data)\<rfloor>;
              absoluteMeasure = totalPositions div 16;
              positionInMeasure = totalPositions mod 16
          in (0 \<le> absoluteMeasure \<and> absoluteMeasure < int (length (flatMeasures data)) \<longrightarrow>
                (\<exists>s'. updatePlaybackProgress data seen s = Inr s' \<and>
                      activeSectionIdx s' = Some (sectionIdx (flatMeasures data ! nat absoluteMeasure)) \<and>
                      activeMeasureIdx s' = Some (measureIdx (flatMeasures data ! nat absoluteMeasure)) \<and>
                      activePosIdx s' = Some positionInMeasure \<and>
                      frameRequests s' =
                        frameRequests s @
                          [\<lparr>frame_id = frameCounter s + 1, seen_isPlayingSynth = seen\<rparr>]) \<and>
                absoluteIdx (flatMeasures data ! nat absoluteMeasure) = nat absoluteMeasure \<and>
                sectionIdx (flatMeasures data ! nat absoluteMeasure) < length (sections data) \<and>
                measureIdx (flatMeasures data ! nat absoluteMeasure)
                  < length (measures (sections data !
                                       sectionIdx (flatMeasures data ! nat absoluteMeasure))) \<and>
                nat absoluteMeasure =
                  sum_list (map (\<lambda>sec. length (measures sec))
                             (take (sectionIdx (flatMeasures data ! nat absoluteMeasure))
                                   (sections data)))
                  + measureIdx (flatMeasures data ! nat absoluteMeasure)) \<and>
             (int (length (flatMeasures data)) \<le> absoluteMeasure \<longrightarrow>
                updatePlaybackProgress data seen s = Inr (stopAllPlayback s) \<and>
                \<not> isPlayingSynth (stopAllPlayback s) \<and>
                synthOscillators (stopAllPlayback s) = [] \<and>
                activeSectionIdx (stopAllPlayback s) = None \<and>
                activeMeasureIdx (stopAllPlayback s) = None \<and>
                activePosIdx (stopAllPlayback s) = None))"
    unfolding Let_def tp_def[symmetric] using inside over by blast
qed

lemma flatMeasures_demo:
  "map (\<lambda>m. (sectionIdx m, measureIdx m, absoluteIdx m)) (flatMeasures demo_tab) =
     [(0, 0, 0), (1, 0, 1)]"
  by (simp add: flatMeasures_def flat_row_def demo_tab_def)

lemma tick_computation_example:
  "synthContextRef (tick_state (9 / 4)) = Some (9 / 4) \<and>
   (case updatePlaybackProgress demo_tab True (tick_state (1 / 10)) of
      Inl e \<Rightarrow> False
    | Inr s' \<Rightarrow> activeSectionIdx s' = None \<and> activePosIdx s' = None \<and>
                length (frameRequests s') = 1) \<and>
   (case updatePlaybackProgress demo_tab True (tick_state (9 / 4)) of
      Inl e \<Rightarrow> False
    | Inr s' \<Rightarrow> activeSectionIdx s' = Some 1 \<and> activeMeasureIdx s' = Some 0 \<and>
                activePosIdx s' = Some 0 \<and> length (frameRequests s') = 1) \<and>
   updatePlaybackProgress demo_tab True (tick_state (43 / 10)) =
     Inr (stopAllPlayback (tick_state (43 / 10)))"
proof -
  have ctx: "synthContextRef (tick_state now) = Some now" "synthStartTimeRef (tick_state now) = 1 / 5"
    "frameRequests (tick_state now) = []" "activeSectionIdx (tick_state now) = None"
    "activePosIdx (tick_state now) = None" for now
    by (simp_all add: tick_state_def initial_def)
  have spp: "secondsPerPosition (tempo demo_tab) = 1 / 8"
    by (simp add: demo_tab_def secondsPerPosition_def secondsPerMeasure_def tempo_or_default_def)
  have len: "length (flatMeasures demo_tab) = 2"
    using arg_cong[OF flatMeasures_demo, of length] by simp
  have e1: "sectionIdx (flatMeasures demo_tab ! Suc 0) = Suc 0"
    "measureIdx (flatMeasures demo_tab ! Suc 0) = 0"
    using arg_cong[OF flatMeasures_demo, of "\<lambda>l. l ! Suc 0"] len by (simp_all add: nth_map)
  note th = tick_computation [of _ True demo_tab, THEN conjunct2, rule_format]
  have early: "\<exists>s'. updatePlaybackProgress demo_tab True (tick_state (1 / 10)) = Inr s' \<and>
      activeSectionIdx s' = None \<and> activePosIdx s' = None \<and> length (frameRequests s') = 1"
    using th [of "tick_state (1 / 10)" "1 / 10", THEN conjunct1] by (auto simp: ctx)
  have mid: "\<exists>s'. updatePlaybackProgress demo_tab True (tick_state (9 / 4)) = Inr s' \<and>
      activeSectionIdx s' = Some 1 \<and> activeMeasureIdx s' = Some 0 \<and>
      activePosIdx s' = Some 0 \<and> length (frameRequests s') = 1"
    using th [of "tick_state (9 / 4)" "9 / 4", THEN conjunct2]
    by (auto simp: ctx spp len e1 Let_def)
  have late: "updatePlaybackProgress demo_tab True (tick_state (43 / 10)) =
     Inr (stopAllPlayback (tick_state (43 / 10)))"
    using th [of "tick_state (43 / 10)" "43 / 10", THEN conjunct2]
    by (simp add: ctx spp len Let_def)
  show ?thesis using early mid late by (auto simp: ctx)
qed

text \<open>
  Claim C1 against the code.  The callback \<^const>\<open>playSynth\<close> registers is the one of the
  render in which the handler ran, where \<open>isPlayingSynth\<close> was false: the first poll
  returns at its guard and registers nothing.  So in every run the cursor stays unset and
  no waiting callback has seen \<open>isPlayingSynth\<close> true.  In the run that starts the
  synthesizer on the example tab at clock 0 and polls at clock 1, the session is active,
  \<open>elapsed = 4 / 5\<close>, \<open>totalPositions = 6\<close>, and measure 0 is inside the two
  flattened measures: the claim has the cursor at section 0, measure 0, position 6 and the
  polling going on.  The poll leaves the cursor unset and the frame queue empty.  The same
  callback with \<open>isPlayingSynth\<close> true computes what the claim says.
\<close>

theorem playhead_stale_closure:
  "(activeSectionIdx (run data evs) = None \<and> activeMeasureIdx (run data evs) = None \<and>
    activePosIdx (run data evs) = None \<and>
    filter seen_isPlayingSynth (frameRequests (run data evs)) = []) \<and>
   isPlayingSynth (run demo_tab [ClickSynth 0, TimePasses 1]) \<and>
   synthContextRef (run demo_tab [ClickSynth 0, TimePasses 1]) = Some 1 \<and>
   synthStartTimeRef (run demo_tab [ClickSynth 0, TimePasses 1]) = 1 / 5 \<and>
   map seen_isPlayingSynth (frameRequests (run demo_tab [ClickSynth 0, TimePasses 1])) = [False] \<and>
   \<lfloor>(1 - 1 / 5) / secondsPerPosition (tempo demo_tab)\<rfloor> = 6 \<and>
   map (\<lambda>m. (sectionIdx m, measureIdx m)) (flatMeasures demo_tab) = [(0, 0), (1, 0)] \<and>
   isPlayingSynth (run demo_tab [ClickSynth 0, TimePasses 1, AnimationFrame]) \<and>
   activeSectionIdx (run demo_tab [ClickSynth 0, TimePasses 1, AnimationFrame]) = None \<and>
   activeMeasureIdx (run demo_tab [ClickSynth 0, TimePasses 1, AnimationFrame]) = None \<and>
   activePosIdx (run demo_tab [ClickSynth 0, TimePasses 1, AnimationFrame]) = None \<and>
   frameRequests (run demo_tab [ClickSynth 0, TimePasses 1, AnimationFrame]) = [] \<and>
   (case updatePlaybackProgress demo_tab True
           ((run demo_tab [ClickSynth 0, TimePasses 1])\<lparr>frameRequests := []\<rparr>) of
      Inl e \<Rightarrow> False
    | Inr t \<Rightarrow> activeSectionIdx t = Some 0 \<and> activeMeasureIdx t = Some 0 \<and>
               activePosIdx t = Some 6 \<and> map seen_isPlayingSynth (frameRequests t) = [True])"
proof -
  have i: "\<not> isPlayingSynth initial" "\<not> isPlayingOriginal initial" "frameRequests initial = []"
    by (simp_all add: initial_def)
  define p where "p = playSynth demo_tab 0 initial"
  define s where "s = time_passes 1 p"
  have r1: "run demo_tab [ClickSynth 0, TimePasses 1] = s"
    by (simp add: run_def s_def p_def)
  have r2: "run demo_tab [ClickSynth 0, TimePasses 1, AnimationFrame] = animation_frame demo_tab s"
    by (simp add: run_def s_def p_def)
  have pf: "isPlayingSynth p" "synthContextRef p = Some 0" "synthStartTimeRef p = 1 / 5"
    "map seen_isPlayingSynth (frameRequests p) = [False]"
    using playSynth_start_fields(1,3,4,5)[OF i(1), of demo_tab 0] i by (simp_all add: p_def)
  have sf: "isPlayingSynth s" "synthContextRef s = Some 1" "synthStartTimeRef s = 1 / 5"
    "map seen_isPlayingSynth (frameRequests s) = [False]"
    using pf by (simp_all add: s_def time_passes_def)
  have spp: "secondsPerPosition (tempo demo_tab) = 1 / 8"
    by (simp add: demo_tab_def secondsPerPosition_def secondsPerMeasure_def tempo_or_default_def)
  have fl: "\<lfloor>(1 - 1 / 5) / secondsPerPosition (tempo demo_tab)\<rfloor> = 6"
    by (simp add: spp)
  have fm: "map (\<lambda>m. (sectionIdx m, measureIdx m)) (flatMeasures demo_tab) = [(0, 0), (1, 0)]"
    by (simp add: flatMeasures_def flat_row_def demo_tab_def)
  have st: "\<forall>f \<in> set (frameRequests s). \<not> seen_isPlayingSynth f"
    using sf(4) by (cases "frameRequests s") auto
  have af: "animation_frame demo_tab s = s\<lparr>frameRequests := tl (frameRequests s)\<rparr>"
    by (rule animation_frame_stale[OF st])
  have q: "frameRequests (animation_frame demo_tab s) = []"
    using sf(4) by (cases "frameRequests s") (simp_all add: af)
  have k: "isPlayingSynth (animation_frame demo_tab s)" using sf(1) by (simp add: af)
  have len: "length (flatMeasures demo_tab) = 2"
    using arg_cong[OF fm, of length] by simp
  have e0: "sectionIdx (flatMeasures demo_tab ! 0) = 0" "measureIdx (flatMeasures demo_tab ! 0) = 0"
    using arg_cong[OF fm, of "\<lambda>l. l ! 0"] len by (simp_all add: nth_map)
  define s0 where "s0 = s\<lparr>frameRequests := []\<rparr>"
  have c0: "synthContextRef s0 = Some 1" and t0: "synthStartTimeRef s0 = 1 / 5"
    and q0: "frameRequests s0 = []"
    using sf by (simp_all add: s0_def)
  have tp: "\<lfloor>(1 - synthStartTimeRef s0) / secondsPerPosition (tempo demo_tab)\<rfloor> = 6"
    by (simp add: t0 spp)
  have "updatePlaybackProgress demo_tab True s0 =
     (let totalPositions = \<lfloor>(1 - synthStartTimeRef s0) / secondsPerPosition (tempo demo_tab)\<rfloor>;
          absoluteMeasure = totalPositions div 16
      in if absoluteMeasure < int (length (flatMeasures demo_tab)) then
           (if absoluteMeasure < 0 then Inl TypeError
            else Inr (requestAnimationFrame True
                       (s0\<lparr>activeSectionIdx := Some (sectionIdx (flatMeasures demo_tab ! nat absoluteMeasure)),
                          activeMeasureIdx := Some (measureIdx (flatMeasures demo_tab ! nat absoluteMeasure)),
                          activePosIdx := Some (js_rem totalPositions 16)\<rparr>)))
         else Inr (stopAllPlayback s0))"
    by (rule tick_running[OF c0]) (simp_all add: t0)
  then have "updatePlaybackProgress demo_tab True s0 =
      Inr (requestAnimationFrame True
             (s0\<lparr>activeSectionIdx := Some 0, activeMeasureIdx := Some 0, activePosIdx := Some 6\<rparr>))"
    unfolding tp by (simp add: len e0 js_rem_def)
  then have fresh: "(case updatePlaybackProgress demo_tab True (s\<lparr>frameRequests := []\<rparr>) of
      Inl e \<Rightarrow> False
    | Inr t \<Rightarrow> activeSectionIdx t = Some 0 \<and> activeMeasureIdx t = Some 0 \<and>
               activePosIdx t = Some 6 \<and> map seen_isPlayingSynth (frameRequests t) = [True])"
    using q0 by (simp add: request_fields s0_def)
  show ?thesis
    unfolding r1 r2
    using cursor_never_moves[of demo_tab "[ClickSynth 0, TimePasses 1, AnimationFrame]"]
      cursor_never_moves[of data evs] stale_queue[of data evs] sf fl fm q k fresh
    unfolding r2
    by simp
qed

theorem playhead_stale_closure_witness:
  "activePosIdx (run demo_tab [ClickSynth 0, TimePasses 3, AnimationFrame, AnimationFrame]) = None"
  using playhead_stale_closure [of demo_tab "[ClickSynth 0, TimePasses 3, AnimationFrame, AnimationFrame]"]
  by blast

subsection \<open>Sanitizer: results in the error monad\<close>

lemma bindE_Inr_iff: "bindE r f = Inr y \<longleftrightarrow> (\<exists>v. r = Inr v \<and> f v = Inr y)"
  by (cases r) (simp_all add: bindE_def)

lemma bindE_Inr [simp]: "bindE (Inr v) f = f v"
  by (simp add: bindE_def)

lemma bindE_Inl [simp]: "bindE (Inl e) f = Inl e"
  by (simp add: bindE_def)

lemma mapE_Inr:
  "mapE f xs = Inr ys \<Longrightarrow> list_all2 (\<lambda>x y. f x = Inr y) xs ys"
proof (induction xs arbitrary: ys)
  case Nil
  then show ?case by simp
next
  case (Cons x xs)
  then obtain y ys' where "f x = Inr y" "mapE f xs = Inr ys'" "ys = y # ys'"
    by (auto simp: bindE_Inr_iff)
  with Cons.IH show ?case by simp
qed

lemma mapE_total:
  "\<forall>x \<in> set xs. \<exists>y. f x = Inr y \<Longrightarrow> \<exists>ys. mapE f xs = Inr ys"
  by (induction xs) auto

lemma filterE_Inr:
  "filterE f xs = Inr ys \<Longrightarrow> ys = filter (\<lambda>x. f x = Inr True) xs"
proof (induction xs arbitrary: ys)
  case Nil
  then show ?case by simp
next
  case (Cons x xs)
  then obtain b ys' where "f x = Inr b" "filterE f xs = Inr ys'" "ys = (if b then x # ys' else ys')"
    by (auto simp: bindE_Inr_iff)
  with Cons.IH show ?case by auto
qed

lemma filterE_total:
  "\<forall>x \<in> set xs. \<exists>b. f x = Inr b \<Longrightarrow> \<exists>ys. filterE f xs = Inr ys"
  by (induction xs) auto

lemma map_of_assign: "map_of (assign k v ps) = (map_of ps)(k \<mapsto> v)"
  by (induction ps) (auto simp: fun_eq_iff)

lemma own_prop_JObj [simp]: "own_prop (JObj ps) k = map_of ps k"
  by (simp add: own_prop_def)

lemma own_prop_JArr [simp]: "own_prop (JArr xs ps) k = map_of ps k"
  by (simp add: own_prop_def)

lemma keep_True:
  assumes "keep rt n = Inr True"
  shows "truthy n \<and>
         (\<exists>s p r. own_prop n ''string'' = Some (JNum s) \<and> own_prop n ''position'' = Some p \<and>
                  to_number rt p = Inr (Some r) \<and> 0 \<le> r)"
  using assms
  by (auto simp: keep_def bindE_Inr_iff split: if_splits option.splits json.splits)










lemma sanitize_note_total:
  assumes "keep rt n = Inr True" and "\<exists>f. fret_text rt (own_prop n ''fret'') = Inr f"
  shows "\<exists>n'. sanitize_note rt n = Inr n'"
  using keep_True[OF assms(1)] assms(2)
  by (auto simp: sanitize_note_def)

subsection \<open>Sanitizer: one measure\<close>

lemma get_Inr_iff: "get v k = Inr x \<longleftrightarrow> v \<noteq> JNull \<and> x = own_prop v k"
  by (auto simp: get_def)

lemma put_Inr_iff: "put v k x = Inr v' \<longleftrightarrow>
   (\<exists>ps. v = JObj ps \<and> v' = JObj (assign k x ps)) \<or>
   (\<exists>xs ps. v = JArr xs ps \<and> v' = JArr xs (assign k x ps))"
  by (cases v) (auto simp: put_def)

lemma put_own_prop: "put v k x = Inr v' \<Longrightarrow> own_prop v' j = (if j = k then Some x else own_prop v j)"
  by (auto simp: put_Inr_iff map_of_assign)

lemma put_object: "is_object v \<Longrightarrow> \<exists>v'. put v k x = Inr v'"
  by (cases v) (simp_all add: is_object_def put_def)

lemma put_is_object: "put v k x = Inr v' \<Longrightarrow> is_object v \<and> is_object v'"
  by (auto simp: put_Inr_iff is_object_def)

lemma truthy_prop_object: "\<not> falsy (own_prop v k) \<Longrightarrow> is_object v"
  by (cases v) (simp_all add: falsy_def own_prop_def is_object_def)

lemma falsy_not_array: "falsy v \<Longrightarrow> \<not> is_array v"
  by (auto simp: falsy_def is_array_def truthy_def split: option.splits json.splits)

lemma sanitize_measure_Inr:
  assumes "sanitize_measure rt m = Inr m'"
  shows "is_object m \<and>
         (falsy (own_prop m ''notes'') \<or> is_array (own_prop m ''notes'')) \<and>
         (\<exists>out. sanitize_notes rt (raw_notes m) = Inr out \<and>
                own_prop m' ''notes'' = Some (JArr out [])) \<and>
         own_prop m' ''chords'' =
           (if falsy (own_prop m ''chords'') then Some (JArr [] []) else own_prop m ''chords'')"
proof -
  from assms obtain m1 m2 where
    g: "m \<noteq> JNull"
    and s1: "(if falsy (own_prop m ''notes'') then put m ''notes'' (JArr [] []) else Inr m) = Inr m1"
    and s2: "(if falsy (own_prop m1 ''chords'') then put m1 ''chords'' (JArr [] []) else Inr m1) = Inr m2"
    and s3: "(case own_prop m2 ''notes'' of
                Some (JArr ns ps) \<Rightarrow>
                  bindE (sanitize_notes rt ns) (\<lambda>out. put m2 ''notes'' (JArr out []))
              | _ \<Rightarrow> Inl TypeError) = Inr m'"
    unfolding sanitize_measure_def bindE_Inr_iff get_Inr_iff by blast
  have n1: "own_prop m1 ''notes'' =
      (if falsy (own_prop m ''notes'') then Some (JArr [] []) else own_prop m ''notes'')"
    and c1: "own_prop m1 ''chords'' = own_prop m ''chords''"
    using s1 by (auto simp: put_own_prop split: if_splits)
  have n2: "own_prop m2 ''notes'' = own_prop m1 ''notes''"
    and c2: "own_prop m2 ''chords'' =
      (if falsy (own_prop m ''chords'') then Some (JArr [] []) else own_prop m ''chords'')"
    using s2 c1 by (auto simp: put_own_prop split: if_splits)
  have obj: "is_object m"
    using s1 put_is_object truthy_prop_object by (auto split: if_splits)
  from s3 obtain ns ps out where
    a: "own_prop m2 ''notes'' = Some (JArr ns ps)" and o: "sanitize_notes rt ns = Inr out"
    and p: "put m2 ''notes'' (JArr out []) = Inr m'"
    by (auto simp: bindE_Inr_iff split: option.splits json.splits)
  have shape: "falsy (own_prop m ''notes'') \<or> is_array (own_prop m ''notes'')"
    using a n1 n2 by (auto simp: is_array_def split: if_splits)
  have raw: "raw_notes m = ns"
    using a n1 n2 falsy_not_array[of "own_prop m ''notes''"]
    by (auto simp: raw_notes_def is_array_def split: if_splits option.splits json.splits)
  have "own_prop m' ''notes'' = Some (JArr out [])" "own_prop m' ''chords'' = own_prop m2 ''chords''"
    using p by (simp_all add: put_own_prop)
  then show ?thesis using obj shape o raw c2 by simp
qed









subsection \<open>Sanitizer: the whole transcription\<close>

lemma js_error_cases: "(x :: js_error + 'a) \<noteq> Inl TypeError \<longleftrightarrow> (\<exists>y. x = Inr y)"
  by (cases x) (auto intro: js_error.exhaust)

lemma keep_total:
  assumes "note_converts rt n"
  shows "\<exists>b. keep rt n = Inr b"
proof (cases "own_prop n ''position''")
  case None
  then show ?thesis by (auto simp: keep_def split: option.splits json.splits)
next
  case (Some p)
  with assms obtain r where "to_number rt p = Inr r"
    by (auto simp: note_converts_def js_error_cases)
  with Some show ?thesis by (auto simp: keep_def split: option.splits json.splits)
qed

lemma sanitize_notes_total:
  assumes "list_all (note_converts rt) ns"
  shows "\<exists>out. sanitize_notes rt ns = Inr out"
proof -
  have "\<forall>n \<in> set ns. \<exists>b. keep rt n = Inr b"
    using assms keep_total by (auto simp: list_all_iff)
  from filterE_total[OF this] obtain kept where k: "filterE (keep rt) ns = Inr kept" by blast
  have "\<forall>n \<in> set kept. \<exists>n'. sanitize_note rt n = Inr n'"
  proof
    fix n assume "n \<in> set kept"
    then have a: "keep rt n = Inr True" "n \<in> set ns" using filterE_Inr[OF k] by auto
    then have "note_converts rt n" using assms by (simp add: list_all_iff)
    then have "\<exists>f. fret_text rt (own_prop n ''fret'') = Inr f"
      by (simp add: note_converts_def js_error_cases)
    from sanitize_note_total[OF a(1) this] show "\<exists>n'. sanitize_note rt n = Inr n'" .
  qed
  from mapE_total[OF this] obtain mapped where "mapE (sanitize_note rt) kept = Inr mapped" by blast
  with k show ?thesis by (simp add: sanitize_notes_def)
qed

lemma falsy_put:
  assumes "is_object v" and "falsy (own_prop v k)"
  shows "\<exists>v'. (if falsy (own_prop v k) then put v k x else Inr v) = Inr v' \<and> is_object v' \<and>
              own_prop v' k = Some x \<and> (\<forall>j. j \<noteq> k \<longrightarrow> own_prop v' j = own_prop v j)"
proof -
  from put_object[OF assms(1)] obtain v' where p: "put v k x = Inr v'" by blast
  then show ?thesis using assms(2) put_is_object[OF p] by (auto simp: put_own_prop)
qed

lemma sanitize_measure_total:
  assumes "measure_shaped rt m"
  shows "\<exists>m'. sanitize_measure rt m = Inr m'"
proof -
  have obj: "is_object m" and shape: "falsy (own_prop m ''notes'') \<or> is_array (own_prop m ''notes'')"
    and conv: "list_all (note_converts rt) (raw_notes m)"
    using assms by (simp_all add: measure_shaped_def)
  have g: "get m ''notes'' = Inr (own_prop m ''notes'')"
    using obj by (auto simp: get_def is_object_def)
  obtain m1 where m1: "(if falsy (own_prop m ''notes'') then put m ''notes'' (JArr [] []) else Inr m) = Inr m1"
    and o1: "is_object m1"
    and n1: "own_prop m1 ''notes'' =
      (if falsy (own_prop m ''notes'') then Some (JArr [] []) else own_prop m ''notes'')"
    using falsy_put[OF obj, of "''notes''" "JArr [] []"] obj by (cases "falsy (own_prop m ''notes'')") auto
  obtain m2 where m2: "(if falsy (own_prop m1 ''chords'') then put m1 ''chords'' (JArr [] []) else Inr m1) = Inr m2"
    and o2: "is_object m2" and n2: "own_prop m2 ''notes'' = own_prop m1 ''notes''"
    using falsy_put[OF o1, of "''chords''" "JArr [] []"] o1 by (cases "falsy (own_prop m1 ''chords'')") auto
  have arr: "own_prop m2 ''notes'' = Some (JArr (raw_notes m) (case own_prop m ''notes'' of Some (JArr ns ps) \<Rightarrow> ps | _ \<Rightarrow> []))"
    using shape n1 n2 falsy_not_array[of "own_prop m ''notes''"]
    by (auto simp: raw_notes_def is_array_def split: option.splits json.splits)
  from sanitize_notes_total[OF conv] obtain out where out: "sanitize_notes rt (raw_notes m) = Inr out"
    by blast
  from put_object[OF o2] obtain m' where "put m2 ''notes'' (JArr out []) = Inr m'" by blast
  then show ?thesis
    using g m1 m2 arr out by (simp add: sanitize_measure_def)
qed

lemma sanitize_section_Inr:
  assumes "sanitize_section rt sec = Inr sec'"
  shows "is_object sec \<and>
         (falsy (own_prop sec ''measures'') \<or> is_array (own_prop sec ''measures'')) \<and>
         is_array (own_prop sec' ''measures'') \<and>
         list_all2 (\<lambda>m m'. sanitize_measure rt m = Inr m') (raw_measures sec) (raw_measures sec')"
proof -
  from assms obtain s1 where
    s1: "(if falsy (own_prop sec ''measures'') then put sec ''measures'' (JArr [] []) else Inr sec) = Inr s1"
    and s2: "(case own_prop s1 ''measures'' of
                Some (JArr ms ps) \<Rightarrow>
                  bindE (mapE (sanitize_measure rt) ms) (\<lambda>ms'. put s1 ''measures'' (JArr ms' ps))
              | _ \<Rightarrow> Inl TypeError) = Inr sec'"
    unfolding sanitize_section_def bindE_Inr_iff get_Inr_iff by blast
  have n1: "own_prop s1 ''measures'' =
      (if falsy (own_prop sec ''measures'') then Some (JArr [] []) else own_prop sec ''measures'')"
    using s1 by (auto simp: put_own_prop split: if_splits)
  have obj: "is_object sec"
    using s1 put_is_object truthy_prop_object by (auto split: if_splits)
  from s2 obtain ms ps ms' where
    a: "own_prop s1 ''measures'' = Some (JArr ms ps)" and o: "mapE (sanitize_measure rt) ms = Inr ms'"
    and p: "put s1 ''measures'' (JArr ms' ps) = Inr sec'"
    by (auto simp: bindE_Inr_iff split: option.splits json.splits)
  have shape: "falsy (own_prop sec ''measures'') \<or> is_array (own_prop sec ''measures'')"
    using a n1 by (auto simp: is_array_def split: if_splits)
  have raw: "raw_measures sec = ms"
    using a n1 falsy_not_array[of "own_prop sec ''measures''"]
    by (auto simp: raw_measures_def is_array_def split: if_splits option.splits json.splits)
  have out: "own_prop sec' ''measures'' = Some (JArr ms' ps)"
    using p by (simp add: put_own_prop)
  then have "raw_measures sec' = ms'" "is_array (own_prop sec' ''measures'')"
    by (simp_all add: raw_measures_def is_array_def)
  then show ?thesis using obj shape raw mapE_Inr[OF o] by simp
qed

lemma sanitize_section_total:
  assumes "section_shaped rt sec"
  shows "\<exists>sec'. sanitize_section rt sec = Inr sec'"
proof -
  have obj: "is_object sec"
    and shape: "falsy (own_prop sec ''measures'') \<or> is_array (own_prop sec ''measures'')"
    and ms: "list_all (measure_shaped rt) (raw_measures sec)"
    using assms by (simp_all add: section_shaped_def)
  have g: "get sec ''measures'' = Inr (own_prop sec ''measures'')"
    using obj by (auto simp: get_def is_object_def)
  obtain s1 where s1: "(if falsy (own_prop sec ''measures'') then put sec ''measures'' (JArr [] []) else Inr sec) = Inr s1"
    and o1: "is_object s1"
    and n1: "own_prop s1 ''measures'' =
      (if falsy (own_prop sec ''measures'') then Some (JArr [] []) else own_prop sec ''measures'')"
    using falsy_put[OF obj, of "''measures''" "JArr [] []"] obj
    by (cases "falsy (own_prop sec ''measures'')") auto
  have arr: "own_prop s1 ''measures'' =
      Some (JArr (raw_measures sec) (case own_prop sec ''measures'' of Some (JArr ns ps) \<Rightarrow> ps | _ \<Rightarrow> []))"
    using shape n1 falsy_not_array[of "own_prop sec ''measures''"]
    by (auto simp: raw_measures_def is_array_def split: option.splits json.splits)
  have "\<forall>m \<in> set (raw_measures sec). \<exists>m'. sanitize_measure rt m = Inr m'"
    using ms sanitize_measure_total by (auto simp: list_all_iff)
  from mapE_total[OF this] obtain ms' where m: "mapE (sanitize_measure rt) (raw_measures sec) = Inr ms'"
    by blast
  from put_object[OF o1] obtain sec' where
    "put s1 ''measures'' (JArr ms' (case own_prop sec ''measures'' of Some (JArr ns ps) \<Rightarrow> ps | _ \<Rightarrow> [])) = Inr sec'"
    by blast
  then show ?thesis using g s1 arr m by (simp add: sanitize_section_def)
qed

lemma sanitize_invalid_iff:
  assumes "parsed \<noteq> JNull"
  shows "sanitize rt parsed = Inl INVALID_STRUCTURE \<longleftrightarrow>
           falsy (own_prop parsed ''sections'') \<or> \<not> is_array (own_prop parsed ''sections'')"
  using assms
  by (auto simp: sanitize_def get_def is_array_def split: option.splits json.splits sum.splits)

lemma sanitize_null: "sanitize rt JNull = Inl RETHROWN"
  by (simp add: sanitize_def get_def)

lemma truthy_chords_kept:
  "sanitize rt
       (JObj [(''sections'', JArr [JObj [(''measures'', JArr [JObj [(''chords'', JNum 5)]] [])]] [])]) =
     Inr (JObj [(''sections'',
                 JArr [JObj [(''measures'',
                              JArr [JObj [(''chords'', JNum 5), (''notes'', JArr [] [])]] [])]] [])])"
  by code_simp

lemma sanitize_Inr:
  assumes "sanitize rt parsed = Inr out"
  shows "is_array (own_prop parsed ''sections'') \<and> is_array (own_prop out ''sections'') \<and>
         list_all2 (\<lambda>s s'. sanitize_section rt s = Inr s') (raw_sections parsed) (raw_sections out)"
proof -
  from assms obtain ss ps where a: "own_prop parsed ''sections'' = Some (JArr ss ps)"
    by (auto simp: sanitize_def get_def is_array_def split: if_splits option.splits json.splits)
  with assms obtain ss' where m: "mapE (sanitize_section rt) ss = Inr ss'"
    and p: "put parsed ''sections'' (JArr ss' ps) = Inr out"
    by (auto simp: sanitize_def get_def is_array_def falsy_def truthy_def bindE_Inr_iff
        split: if_splits sum.splits)
  have "own_prop out ''sections'' = Some (JArr ss' ps)" using p by (simp add: put_own_prop)
  then show ?thesis using a mapE_Inr[OF m] by (simp add: raw_sections_def is_array_def)
qed

lemma sanitize_total:
  assumes "is_array (own_prop parsed ''sections'')"
    and "list_all (section_shaped rt) (raw_sections parsed)"
  shows "\<exists>out. sanitize rt parsed = Inr out"
proof -
  from assms(1) obtain ss ps where a: "own_prop parsed ''sections'' = Some (JArr ss ps)"
    by (auto simp: is_array_def split: option.splits json.splits)
  then have obj: "is_object parsed" "parsed \<noteq> JNull"
    by (cases parsed; simp add: own_prop_def is_object_def)+
  have "\<forall>s \<in> set ss. \<exists>s'. sanitize_section rt s = Inr s'"
    using assms(2) a sanitize_section_total by (auto simp: list_all_iff raw_sections_def)
  from mapE_total[OF this] obtain ss' where m: "mapE (sanitize_section rt) ss = Inr ss'" by blast
  from put_object[OF obj(1)] obtain out where "put parsed ''sections'' (JArr ss' ps) = Inr out"
    by blast
  then show ?thesis
    using a m obj(2) by (simp add: sanitize_def get_def falsy_def truthy_def is_array_def)
qed


lemma demo_run: "sanitize demo_engine demo_raw = Inr demo_sanitized"
  by code_simp



lemma measures_complete:
  assumes "list_all2 (\<lambda>m m'. sanitize_measure rt m = Inr m') ms ms'"
  shows "list_all (\<lambda>m'. is_array (own_prop m' ''notes'')) ms' \<and>
         (list_all chords_shaped ms \<longrightarrow> list_all measure_complete ms')"
  using assms
proof (induction rule: list_all2_induct)
  case Nil
  then show ?case by simp
next
  case (Cons m ms m' ms')
  from sanitize_measure_Inr[OF Cons.hyps(1)] have
    n: "is_array (own_prop m' ''notes'')"
    and c: "own_prop m' ''chords'' =
           (if falsy (own_prop m ''chords'') then Some (JArr [] []) else own_prop m ''chords'')"
    by (auto simp: is_array_def)
  have "chords_shaped m \<longrightarrow> measure_complete m'"
    using n c by (auto simp: chords_shaped_def measure_complete_def is_array_def)
  with n Cons.IH show ?case by simp
qed

lemma sections_complete:
  assumes "list_all2 (\<lambda>s s'. sanitize_section rt s = Inr s') ss ss'"
  shows "list_all (\<lambda>sec. is_array (own_prop sec ''measures'') \<and>
                         list_all (\<lambda>m. is_array (own_prop m ''notes'')) (raw_measures sec)) ss' \<and>
         (list_all (\<lambda>sec. list_all chords_shaped (raw_measures sec)) ss \<longrightarrow>
            list_all section_complete ss')"
  using assms
proof (induction rule: list_all2_induct)
  case Nil
  then show ?case by simp
next
  case (Cons s ss s' ss')
  from sanitize_section_Inr[OF Cons.hyps(1)] have
    a: "is_array (own_prop s' ''measures'')"
    and l: "list_all2 (\<lambda>m m'. sanitize_measure rt m = Inr m') (raw_measures s) (raw_measures s')"
    by simp_all
  from measures_complete[OF l] a Cons.IH show ?case by (simp add: section_complete_def)
qed

lemma plain_note_converts:
  assumes "case own_prop n ''position'' of
             None \<Rightarrow> True | Some JNull \<Rightarrow> True | Some (JBool b) \<Rightarrow> True | Some (JNum r) \<Rightarrow> True
           | _ \<Rightarrow> False"
    and "case own_prop n ''fret'' of
           None \<Rightarrow> True | Some JNull \<Rightarrow> True | Some (JBool b) \<Rightarrow> True | Some (JStr t) \<Rightarrow> True
         | _ \<Rightarrow> False"
  shows "note_converts rt n"
  using assms
  by (auto simp: note_converts_def to_number_def fret_text_def to_string_def
      split: option.splits json.splits)

text \<open>
  Where the sanitizer is total.  For every input other than \<^verbatim>\<open>null\<close> it fails with
  \<^verbatim>\<open>INVALID_STRUCTURE\<close> exactly when \<^verbatim>\<open>sections\<close> is falsy or no array; every
  failure leaves the application in its error state with the renderer not mounted, so
  nothing is scheduled.  When \<^verbatim>\<open>sections\<close> is an array whose sections and measures
  are shaped as above, the sanitizer returns, whatever the notes are (a note whose position
  and fret are absent, null, a boolean, and a number or a string respectively, never makes
  a conversion throw).  Whatever it returns has a \<^verbatim>\<open>measures\<close> array in every section
  and a \<^verbatim>\<open>notes\<close> array in every measure, and is structurally complete when every
  raw \<^verbatim>\<open>chords\<close> was falsy or an array.
\<close>

lemma sanitize_shaped_input:
  "(parsed \<noteq> JNull \<longrightarrow>
      (sanitize rt parsed = Inl INVALID_STRUCTURE \<longleftrightarrow>
         falsy (own_prop parsed ''sections'') \<or> \<not> is_array (own_prop parsed ''sections''))) \<and>
   (\<forall>code. sanitize rt parsed = Inl code \<longrightarrow>
      appState (processAudio rt parsed a) = ERROR \<and>
      errorDetails (processAudio rt parsed a) = Some code \<and>
      \<not> renderer_mounted (processAudio rt parsed a)) \<and>
   (is_array (own_prop parsed ''sections'') \<and> list_all (section_shaped rt) (raw_sections parsed) \<longrightarrow>
      (\<exists>out. sanitize rt parsed = Inr out)) \<and>
   (\<forall>out. sanitize rt parsed = Inr out \<longrightarrow>
      is_array (own_prop out ''sections'') \<and>
      list_all (\<lambda>sec. is_array (own_prop sec ''measures'') \<and>
                      list_all (\<lambda>m. is_array (own_prop m ''notes'')) (raw_measures sec))
               (raw_sections out) \<and>
      (list_all (\<lambda>sec. list_all chords_shaped (raw_measures sec)) (raw_sections parsed) \<longrightarrow>
         structurally_complete out)) \<and>
   (\<forall>n. (case own_prop n ''position'' of
            None \<Rightarrow> True | Some JNull \<Rightarrow> True | Some (JBool b) \<Rightarrow> True | Some (JNum r) \<Rightarrow> True
          | _ \<Rightarrow> False) \<and>
         (case own_prop n ''fret'' of
            None \<Rightarrow> True | Some JNull \<Rightarrow> True | Some (JBool b) \<Rightarrow> True | Some (JStr t) \<Rightarrow> True
          | _ \<Rightarrow> False) \<longrightarrow>
         note_converts rt n)"
proof -
  have err: "appState (processAudio rt parsed a) = ERROR \<and>
      errorDetails (processAudio rt parsed a) = Some code \<and>
      \<not> renderer_mounted (processAudio rt parsed a)" if "sanitize rt parsed = Inl code" for code
    using that by (simp add: processAudio_def renderer_mounted_def)
  have ok: "is_array (own_prop out ''sections'') \<and>
      list_all (\<lambda>sec. is_array (own_prop sec ''measures'') \<and>
                      list_all (\<lambda>m. is_array (own_prop m ''notes'')) (raw_measures sec))
               (raw_sections out) \<and>
      (list_all (\<lambda>sec. list_all chords_shaped (raw_measures sec)) (raw_sections parsed) \<longrightarrow>
         structurally_complete out)" if "sanitize rt parsed = Inr out" for out
    using sanitize_Inr[OF that] sections_complete[of rt "raw_sections parsed" "raw_sections out"]
    by (simp add: structurally_complete_def)
  show ?thesis
    using sanitize_invalid_iff[of parsed rt] err ok
      sanitize_total[of parsed rt] plain_note_converts[of _ rt]
    by blast
qed

lemma sanitize_shaped_input_example:
  "sanitize demo_engine demo_raw = Inr demo_sanitized \<and> structurally_complete demo_sanitized \<and>
   list_all (section_shaped demo_engine) (raw_sections demo_raw) \<and>
   sanitize demo_engine (JObj [(''songTitle'', JStr ''Demo'')]) = Inl INVALID_STRUCTURE \<and>
   \<not> renderer_mounted
       (processAudio demo_engine (JObj [(''songTitle'', JStr ''Demo'')])
          \<lparr>appState = PROCESSING, result = None, errorDetails = None\<rparr>)"
proof -
  have s: "list_all (section_shaped demo_engine) (raw_sections demo_raw)" by code_simp
  have c: "list_all (\<lambda>sec. list_all chords_shaped (raw_measures sec)) (raw_sections demo_raw)"
    by code_simp
  have i: "falsy (own_prop (JObj [(''songTitle'', JStr ''Demo'')]) ''sections'')"
    by (simp add: falsy_def)
  note th = sanitize_shaped_input [where rt = demo_engine and parsed = demo_raw]
  from th demo_run c have a: "structurally_complete demo_sanitized" by blast
  from sanitize_shaped_input [where rt = demo_engine and parsed = "JObj [(''songTitle'', JStr ''Demo'')]"
      and a = "\<lparr>appState = PROCESSING, result = None, errorDetails = None\<rparr>"] i
  have b: "sanitize demo_engine (JObj [(''songTitle'', JStr ''Demo'')]) = Inl INVALID_STRUCTURE \<and>
     \<not> renderer_mounted
       (processAudio demo_engine (JObj [(''songTitle'', JStr ''Demo'')])
          \<lparr>appState = PROCESSING, result = None, errorDetails = None\<rparr>)"
    by blast
  show ?thesis using demo_run a s b by blast
qed

text \<open>
  Claim C3 against the code.  The sanitizer repairs a missing \<^verbatim>\<open>measures\<close>,
  \<^verbatim>\<open>notes\<close> or \<^verbatim>\<open>chords\<close> and drops a note that is \<^verbatim>\<open>null\<close>, but it
  reads \<^verbatim>\<open>measure.notes\<close> and \<^verbatim>\<open>section.measures\<close> with no test of the
  measure or the section.  One measure that is \<^verbatim>\<open>null\<close> beside a well-formed one
  makes that read throw; the catch block rethrows the error under a code other than
  \<^verbatim>\<open>INVALID_STRUCTURE\<close>, and the whole transcription is rejected, whatever the
  engine.  Without that measure the same input is returned as it is, and a
  \<^verbatim>\<open>null\<close> among the notes is dropped.  A measure that is a number and a section
  that is \<^verbatim>\<open>null\<close> reject the transcription in the same way.
\<close>

theorem malformed_measure_rejects_all:
  "sanitize rt (JObj [(''sections'', JArr [JObj [(''measures'', JArr [JNull, plain_measure] [])]] [])]) =
     Inl RETHROWN \<and>
   sanitize rt (JObj [(''sections'', JArr [JObj [(''measures'', JArr [plain_measure] [])]] [])]) =
     Inr (JObj [(''sections'', JArr [JObj [(''measures'', JArr [plain_measure] [])]] [])]) \<and>
   sanitize rt (JObj [(''sections'',
       JArr [JObj [(''measures'',
         JArr [JObj [(''chords'', JArr [] []), (''notes'', JArr [JNull, raw_note 1 ''0'' 0] [])]] [])]] [])]) =
     Inr (JObj [(''sections'', JArr [JObj [(''measures'', JArr [plain_measure] [])]] [])]) \<and>
   sanitize rt (JObj [(''sections'', JArr [JObj [(''measures'', JArr [JNum 7, plain_measure] [])]] [])]) =
     Inl RETHROWN \<and>
   sanitize rt (JObj [(''sections'',
       JArr [JNull, JObj [(''measures'', JArr [plain_measure] [])]] [])]) = Inl RETHROWN \<and>
   appState (processAudio rt
       (JObj [(''sections'', JArr [JObj [(''measures'', JArr [JNull, plain_measure] [])]] [])]) a) = ERROR \<and>
   \<not> renderer_mounted (processAudio rt
       (JObj [(''sections'', JArr [JObj [(''measures'', JArr [JNull, plain_measure] [])]] [])]) a)"
proof -
  have bad: "sanitize rt (JObj [(''sections'', JArr [JObj [(''measures'', JArr [JNull, plain_measure] [])]] [])]) =
     Inl RETHROWN"
    by code_simp
  have good: "sanitize rt (JObj [(''sections'', JArr [JObj [(''measures'', JArr [plain_measure] [])]] [])]) =
     Inr (JObj [(''sections'', JArr [JObj [(''measures'', JArr [plain_measure] [])]] [])])"
    by code_simp
  have nul: "sanitize rt (JObj [(''sections'',
       JArr [JObj [(''measures'',
         JArr [JObj [(''chords'', JArr [] []), (''notes'', JArr [JNull, raw_note 1 ''0'' 0] [])]] [])]] [])]) =
     Inr (JObj [(''sections'', JArr [JObj [(''measures'', JArr [plain_measure] [])]] [])])"
    by code_simp
  have prim: "sanitize rt (JObj [(''sections'', JArr [JObj [(''measures'', JArr [JNum 7, plain_measure] [])]] [])]) =
     Inl RETHROWN"
    by code_simp
  have sec: "sanitize rt (JObj [(''sections'',
       JArr [JNull, JObj [(''measures'', JArr [plain_measure] [])]] [])]) = Inl RETHROWN"
    by code_simp
  have app: "appState (processAudio rt
       (JObj [(''sections'', JArr [JObj [(''measures'', JArr [JNull, plain_measure] [])]] [])]) a) = ERROR \<and>
   \<not> renderer_mounted (processAudio rt
       (JObj [(''sections'', JArr [JObj [(''measures'', JArr [JNull, plain_measure] [])]] [])]) a)"
    using bad by (simp add: processAudio_def renderer_mounted_def)
  show ?thesis using bad good nul prim sec app by (intro conjI) simp_all
qed

theorem malformed_measure_rejects_all_witness:
  "sanitize demo_engine
     (JObj [(''sections'', JArr [JObj [(''measures'', JArr [JNull, plain_measure] [])]] [])]) =
     Inl RETHROWN"
  using malformed_measure_rejects_all [of demo_engine] by blast

end
